theory Spec2Isabelle
  imports Main "HOL-Library.Sublist"
begin

section \<open>Tollbooth proxy addon: data model\<close>

text \<open>
  The theory embeds \<^verbatim>\<open>src/proxy/addon.py\<close>, the mitmproxy addon
  \<^verbatim>\<open>TrafficInspectorAddon\<close>. Python strings and byte strings are both
  \<^typ>\<open>string\<close>; a dictionary is a map (\<^verbatim>\<open>dict\<close> for one from header names to
  values); the headers of a message in the proxy are mitmproxy's \<^verbatim>\<open>Headers\<close>, a list of
  fields (\<^verbatim>\<open>fields\<close>) whose names compare without regard to case; the asyncio events stored in the pending
  registries are addresses into an explicit store of flags, because the request and
  response hooks keep a reference to the event they created while the registry entry
  may be replaced or removed. Log lines and timestamps are left out: no decision of the
  addon reads them.
\<close>

type_synonym flow_id = string
type_synonym event = nat
type_synonym fields = "(string \<times> string) list"
type_synonym dict = "string \<rightharpoonup> string"

subsection \<open>Strings\<close>

text \<open>Python's \<^verbatim>\<open>h in host\<close> on two strings: \<^verbatim>\<open>h\<close> occurs in \<^verbatim>\<open>host\<close> as a
  contiguous substring.\<close>

fun str_in :: "string \<Rightarrow> string \<Rightarrow> bool" where
  "str_in h [] = (h = [])"
| "str_in h (c # cs) = (prefix h (c # cs) \<or> str_in h cs)"

text \<open>Python's decimal rendering of a length inside an f-string.\<close>

definition digit_char :: "nat \<Rightarrow> char" where
  "digit_char d = char_of (48 + d)"

fun str_nat :: "nat \<Rightarrow> string" where
  "str_nat n = (if n < 10 then [digit_char n] else str_nat (n div 10) @ [digit_char (n mod 10)])"

declare str_nat.simps [simp del]

subsection \<open>Headers of the proxy engine\<close>

text \<open>
  mitmproxy's \<^verbatim>\<open>Headers\<close> (a \<^verbatim>\<open>MultiDict\<close>): the fields of the message in order, a
  name possibly several times. Two names are the same when their lower-case forms are
  (\<^verbatim>\<open>_kconv\<close> is \<^verbatim>\<open>str.lower\<close>; here on the ASCII letters).
\<close>

definition lower_char :: "char \<Rightarrow> char" where
  "lower_char c =
     (let n = (of_char c :: nat) in if 65 \<le> n \<and> n \<le> 90 then char_of (n + 32) else c)"

definition lower :: "string \<Rightarrow> string" where
  "lower s = map lower_char s"

text \<open>\<^verbatim>\<open>get_all(key)\<close>: the values of the fields with that name, in order.\<close>

definition get_all :: "fields \<Rightarrow> string \<Rightarrow> string list" where
  "get_all hs key = map snd (filter (\<lambda>kv. lower (fst kv) = lower key) hs)"

text \<open>\<^verbatim>\<open>", ".join(values)\<close>.\<close>

fun join_values :: "string list \<Rightarrow> string" where
  "join_values [] = []"
| "join_values [v] = v"
| "join_values (v # w # vs) = v @ '', '' @ join_values (w # vs)"

text \<open>\<^verbatim>\<open>headers.get(key)\<close>: the values under that name joined, \<^const>\<open>None\<close> when there is
  no such field.\<close>

definition header_get :: "fields \<Rightarrow> string \<Rightarrow> string option" where
  "header_get hs key = (if get_all hs key = [] then None else Some (join_values (get_all hs key)))"

text \<open>
  \<^verbatim>\<open>headers[key] = value\<close>, which is \<^verbatim>\<open>set_all(key, [value])\<close>: the first field of that
  name keeps its place and its spelling and takes the value, the later fields of that name
  go, and when there is none a field is added at the end.
\<close>

fun header_set :: "fields \<Rightarrow> string \<Rightarrow> string \<Rightarrow> fields" where
  "header_set [] key v = [(key, v)]"
| "header_set ((k, x) # fs) key v =
     (if lower k = lower key
      then (k, v) # filter (\<lambda>kv. lower (fst kv) \<noteq> lower key) fs
      else (k, x) # header_set fs key v)"

text \<open>\<^verbatim>\<open>dict(headers)\<close>: each name once, in the spelling of its first field, with its
  values joined.\<close>

fun headers_dict :: "fields \<Rightarrow> dict" where
  "headers_dict [] = Map.empty"
| "headers_dict ((k, x) # fs) =
     (headers_dict (filter (\<lambda>kv. lower (fst kv) \<noteq> lower k) fs))
       (k \<mapsto> join_values (x # get_all fs k))"

subsection \<open>Configuration and collaborators\<close>

text \<open>
  \<^verbatim>\<open>LLM_API_HOSTS\<close> is the module constant. \<^verbatim>\<open>MAX_BODY_SIZE\<close> is read from the
  process environment when the module is loaded, so it is a field of the environment
  record, as are the collaborators the addon calls but does not define: the UTF-8 decoder
  of \<^verbatim>\<open>bytes.decode\<close> (\<^const>\<open>None\<close> when it raises), mitmproxy's \<^verbatim>\<open>set_text\<close> (from the
  message's headers and the new text it gives the message's new headers and new content:
  it encodes the text by the charset of \<^verbatim>\<open>content-type\<close> and writes
  \<^verbatim>\<open>content-length\<close>; the content the message had plays no part), \<^verbatim>\<open>str.encode\<close>,
  \<^verbatim>\<open>urllib.parse.urlparse\<close> (\<^const>\<open>Inl\<close> the exception's text when parsing raises) and
  the httpx client (\<^const>\<open>Inl\<close> the transport error).
\<close>

definition LLM_API_HOSTS :: "string list" where
  "LLM_API_HOSTS =
     [''api.anthropic.com'', ''api.openai.com'',
      ''generativelanguage.googleapis.com'', ''chatgpt.com'']"

definition DEFAULT_MAX_BODY_SIZE :: int where
  "DEFAULT_MAX_BODY_SIZE = 1 * 1024 * 1024"

record parsed_url =
  pu_scheme :: string
  pu_hostname :: "string option"
  pu_port :: "int option"
  pu_path :: string
  pu_query :: string

record http_result =
  hr_status_code :: int
  hr_reason_phrase :: string
  hr_headers :: dict
  hr_text :: string

record http_call =
  hc_method :: string
  hc_url :: string
  hc_headers :: dict
  hc_content :: "string option"

record env =
  MAX_BODY_SIZE :: int
  decode_utf8 :: "string \<Rightarrow> string option"
  set_text :: "fields \<Rightarrow> string \<Rightarrow> fields \<times> string"
  str_encode :: "string \<Rightarrow> string"
  urlparse :: "string \<Rightarrow> string + parsed_url"
  http_client :: "http_call \<Rightarrow> string + http_result"

subsection \<open>Flows of the proxy engine\<close>

record http_request =
  req_method :: string
  req_pretty_url :: string
  req_url :: string
  req_host :: string
  req_port :: int
  req_path :: string
  req_headers :: fields
  req_content :: "string option"

record http_response =
  resp_status_code :: int
  resp_reason :: string
  resp_headers :: fields
  resp_content :: "string option"

record flow =
  flow_ident :: flow_id
  flow_request :: http_request
  flow_response :: "http_response option"
  flow_killed :: bool

subsection \<open>Operator commands and outbound messages\<close>

text \<open>
  A command is the decoded JSON object, its fields at the types the addon expects of
  them; a field the source reads with a default is an option, \<^const>\<open>None\<close> when absent. In
  the \<^verbatim>\<open>modifications\<close> object a key that is absent is \<^const>\<open>None\<close>, and
  \<^verbatim>\<open>data.get("modifications", {})\<close> turns an absent object into the one with no key.
\<close>

record modifications =
  mod_drop :: "bool option"
  mod_body :: "string option"
  mod_headers :: "(string \<times> string) list option"
  mod_status_code :: "int option"

definition no_modifications :: modifications where
  "no_modifications =
     \<lparr>mod_drop = None, mod_body = None, mod_headers = None, mod_status_code = None\<rparr>"

definition drop_modifications :: modifications where
  "drop_modifications =
     \<lparr>mod_drop = Some True, mod_body = None, mod_headers = None, mod_status_code = None\<rparr>"

record replay_request_data =
  rq_method :: "string option"
  rq_url :: "string option"
  rq_headers :: "dict option"
  rq_body :: "string option"

record replay_spec =
  rp_replay_id :: string
  rp_variant_id :: string
  rp_request :: "replay_request_data option"
  rp_intercept_response :: "bool option"
  rp_parent_flow_id :: "string option"

datatype command =
    SetInterceptMode "string option"
  | SetRulesEnabled "bool option"
  | Forward flow_id
  | ForwardModified flow_id "modifications option"
  | Drop flow_id
  | ForwardResponse flow_id
  | ForwardResponseModified flow_id "modifications option"
  | ReplayRequest replay_spec
  | UnknownCommand string

record request_info =
  ri_method :: string
  ri_url :: string
  ri_host :: string
  ri_port :: int
  ri_path :: string
  ri_headers :: dict
  ri_content :: "string option"

record response_info =
  rs_status_code :: int
  rs_reason :: string
  rs_headers :: dict
  rs_content :: "string option"

record replay_source =
  src_variant_id :: string
  src_parent_flow_id :: "string option"

record flow_data =
  fd_flow_id :: flow_id
  fd_request :: request_info
  fd_is_llm_api :: bool
  fd_response :: "response_info option"
  fd_stream_complete :: bool
  fd_original_response :: "response_info option"
  fd_response_modified :: bool
  fd_replay_source :: "replay_source option"

datatype message =
    MRequest flow_data
  | MInterceptRequest flow_data
  | MRequestModified flow_id request_info request_info
  | MInterceptResponse flow_data
  | MResponse flow_data
  | MReplayResponse string string "flow_id option" string
  | MReplayComplete string string flow_id bool

text \<open>The \<^verbatim>\<open>"type"\<close> field each message is sent with.\<close>

fun msg_type :: "message \<Rightarrow> string" where
  "msg_type (MRequest _) = ''request''"
| "msg_type (MInterceptRequest _) = ''intercept_request''"
| "msg_type (MRequestModified _ _ _) = ''request_modified''"
| "msg_type (MInterceptResponse _) = ''intercept_response''"
| "msg_type (MResponse _) = ''response''"
| "msg_type (MReplayResponse _ _ _ _) = ''replay_response''"
| "msg_type (MReplayComplete _ _ _ _) = ''replay_complete''"

subsection \<open>The addon's state\<close>

text \<open>
  The first seven fields are the attributes set by \<^verbatim>\<open>__init__\<close>. \<^verbatim>\<open>events\<close> is the
  store of the \<^verbatim>\<open>asyncio.Event\<close> objects (the flag of each), \<^verbatim>\<open>next_event\<close> the next
  unused address. \<^verbatim>\<open>outbox\<close> lists the messages handed to \<^verbatim>\<open>send_to_backend\<close>, in
  order; \<^verbatim>\<open>http_log\<close> the calls made through the HTTP client; \<^verbatim>\<open>replay_tasks\<close> the
  replay tasks created by \<^verbatim>\<open>asyncio.create_task\<close>. The WebSocket itself
  (\<^verbatim>\<open>ws\<close>, \<^verbatim>\<open>ws_lock\<close>, the reader task) is outside the model: \<^verbatim>\<open>send_to_backend\<close>
  swallows every transport failure, so the caller continues in the same way whether the
  message was delivered or not.
\<close>

record addon =
  intercept_mode :: string
  rules_enabled :: bool
  pending_flows :: "flow_id \<rightharpoonup> event"
  flow_modifications :: "flow_id \<rightharpoonup> modifications"
  response_pending :: "flow_id \<rightharpoonup> event"
  response_modifications :: "flow_id \<rightharpoonup> modifications"
  streaming_flows :: "flow_id set"
  events :: "event \<Rightarrow> bool"
  next_event :: event
  outbox :: "message list"
  http_log :: "http_call list"
  replay_tasks :: "replay_spec list"

definition init_addon :: addon where
  "init_addon =
     \<lparr>intercept_mode = ''passthrough'', rules_enabled = False,
      pending_flows = Map.empty, flow_modifications = Map.empty,
      response_pending = Map.empty, response_modifications = Map.empty,
      streaming_flows = {}, events = (\<lambda>_. False), next_event = 0,
      outbox = [], http_log = [], replay_tasks = []\<rparr>"

text \<open>\<^verbatim>\<open>asyncio.Event()\<close>: a new event, not set.\<close>

definition new_event :: "addon \<Rightarrow> event \<times> addon" where
  "new_event st =
     (next_event st,
      st\<lparr>events := (events st)(next_event st := False), next_event := Suc (next_event st)\<rparr>)"

text \<open>\<^verbatim>\<open>event.set()\<close>.\<close>

definition set_event :: "addon \<Rightarrow> event \<Rightarrow> addon" where
  "set_event st e = st\<lparr>events := (events st)(e := True)\<rparr>"

definition send_to_backend :: "addon \<Rightarrow> message \<Rightarrow> addon" where
  "send_to_backend st m = st\<lparr>outbox := outbox st @ [m]\<rparr>"

section \<open>Operations\<close>

subsection \<open>Operator commands\<close>

text \<open>\<^verbatim>\<open>_process_backend_command\<close>: one branch per value of \<^verbatim>\<open>cmd\<close>, in the source's
  order; a command with any other tag changes nothing.\<close>

definition mods_or_empty :: "modifications option \<Rightarrow> modifications" where
  "mods_or_empty m = (case m of None \<Rightarrow> no_modifications | Some v \<Rightarrow> v)"

fun process_backend_command :: "addon \<Rightarrow> command \<Rightarrow> addon" where
  "process_backend_command st (SetInterceptMode m) =
     st\<lparr>intercept_mode := (case m of None \<Rightarrow> ''passthrough'' | Some v \<Rightarrow> v)\<rparr>"
| "process_backend_command st (SetRulesEnabled b) =
     st\<lparr>rules_enabled := (case b of None \<Rightarrow> False | Some v \<Rightarrow> v)\<rparr>"
| "process_backend_command st (Forward f) =
     (case pending_flows st f of
        Some e \<Rightarrow> set_event st e
      | None \<Rightarrow>
          (case response_pending st f of
             Some e \<Rightarrow> set_event st e
           | None \<Rightarrow> st))"
| "process_backend_command st (ForwardModified f m) =
     (case pending_flows st f of
        Some e \<Rightarrow>
          set_event (st\<lparr>flow_modifications := (flow_modifications st)(f \<mapsto> mods_or_empty m)\<rparr>) e
      | None \<Rightarrow>
          (case response_pending st f of
             Some e \<Rightarrow>
               set_event
                 (st\<lparr>response_modifications :=
                       (response_modifications st)(f \<mapsto> mods_or_empty m)\<rparr>) e
           | None \<Rightarrow> st))"
| "process_backend_command st (Drop f) =
     (case pending_flows st f of
        Some e \<Rightarrow>
          set_event (st\<lparr>flow_modifications := (flow_modifications st)(f \<mapsto> drop_modifications)\<rparr>) e
      | None \<Rightarrow> st)"
| "process_backend_command st (ForwardResponse f) =
     (case response_pending st f of
        Some e \<Rightarrow> set_event st e
      | None \<Rightarrow> st)"
| "process_backend_command st (ForwardResponseModified f m) =
     (case response_pending st f of
        Some e \<Rightarrow>
          set_event
            (st\<lparr>response_modifications := (response_modifications st)(f \<mapsto> mods_or_empty m)\<rparr>) e
      | None \<Rightarrow> st)"
| "process_backend_command st (ReplayRequest d) = st\<lparr>replay_tasks := replay_tasks st @ [d]\<rparr>"
| "process_backend_command st (UnknownCommand c) = st"

subsection \<open>Mode controller\<close>

definition should_intercept :: "addon \<Rightarrow> string \<Rightarrow> bool" where
  "should_intercept st host =
     (if intercept_mode st = ''passthrough'' then False
      else if intercept_mode st = ''intercept_llm'' then list_ex (\<lambda>h. str_in h host) LLM_API_HOSTS
      else if intercept_mode st = ''intercept_all'' then True
      else False)"

definition should_apply_rules :: "addon \<Rightarrow> bool" where
  "should_apply_rules st = rules_enabled st"

definition is_llm_api :: "string \<Rightarrow> bool" where
  "is_llm_api host = list_ex (\<lambda>h. str_in h host) LLM_API_HOSTS"

subsection \<open>Snapshots\<close>

definition binary_placeholder :: "nat \<Rightarrow> string" where
  "binary_placeholder n = ''[Binary content, '' @ str_nat n @ '' bytes]''"

definition truncated_placeholder :: "nat \<Rightarrow> string" where
  "truncated_placeholder n = ''[Content truncated, '' @ str_nat n @ '' bytes total]''"

definition decode_or_binary :: "env \<Rightarrow> string \<Rightarrow> string" where
  "decode_or_binary ev c =
     (case decode_utf8 ev c of Some t \<Rightarrow> t | None \<Rightarrow> binary_placeholder (length c))"

text \<open>\<^verbatim>\<open>_get_body_content\<close>.\<close>

definition get_body_content :: "env \<Rightarrow> string option \<Rightarrow> bool \<Rightarrow> string option" where
  "get_body_content ev content is_llm =
     (case content of
        None \<Rightarrow> None
      | Some c \<Rightarrow>
          if c = [] then None
          else if is_llm then Some (decode_or_binary ev c)
          else if int (length c) > MAX_BODY_SIZE ev then Some (truncated_placeholder (length c))
          else Some (decode_or_binary ev c))"

definition request_to_dict :: "env \<Rightarrow> http_request \<Rightarrow> bool \<Rightarrow> request_info" where
  "request_to_dict ev request is_llm =
     \<lparr>ri_method = req_method request, ri_url = req_pretty_url request,
      ri_host = req_host request, ri_port = req_port request, ri_path = req_path request,
      ri_headers = headers_dict (req_headers request),
      ri_content = get_body_content ev (req_content request) is_llm\<rparr>"

definition response_to_dict :: "env \<Rightarrow> http_response \<Rightarrow> bool \<Rightarrow> response_info" where
  "response_to_dict ev response is_llm =
     \<lparr>rs_status_code = resp_status_code response, rs_reason = resp_reason response,
      rs_headers = headers_dict (resp_headers response),
      rs_content = get_body_content ev (resp_content response) is_llm\<rparr>"

definition flow_to_dict :: "env \<Rightarrow> flow \<Rightarrow> bool \<Rightarrow> flow_data" where
  "flow_to_dict ev fl include_response =
     (let request = flow_request fl;
          is_llm = is_llm_api (req_host request)
      in \<lparr>fd_flow_id = flow_ident fl,
          fd_request = request_to_dict ev request is_llm,
          fd_is_llm_api = is_llm,
          fd_response =
            (if include_response
             then map_option (\<lambda>response. response_to_dict ev response is_llm) (flow_response fl)
             else None),
          fd_stream_complete = False,
          fd_original_response = None,
          fd_response_modified = False,
          fd_replay_source = None\<rparr>)"

subsection \<open>Waiting for the operator\<close>

text \<open>
  \<^verbatim>\<open>asyncio.wait_for(event.wait(), timeout=300)\<close>. The hook is suspended, and what
  runs meanwhile is the reader task, handling the commands that arrive. The wait is
  decided when the hook's event is set or when the 300 seconds are over, whichever comes
  first; the hook itself runs again only some time after that, and until it does (until
  its \<^verbatim>\<open>finally\<close> clause) the flow is still registered and the reader task goes on
  handling commands. \<^verbatim>\<open>cmds\<close> are the commands handled up to the moment the wait is
  decided, \<^verbatim>\<open>late\<close> the commands handled from then until the hook runs again. The wait
  has timed out when \<^verbatim>\<open>cmds\<close> left the event not set.
\<close>

datatype wait_result = Released | TimedOut

definition run_commands :: "addon \<Rightarrow> command list \<Rightarrow> addon" where
  "run_commands st cmds = foldl process_backend_command st cmds"

definition await_release ::
  "addon \<Rightarrow> event \<Rightarrow> command list \<Rightarrow> command list \<Rightarrow> addon \<times> wait_result" where
  "await_release st e cmds late =
     (let st1 = run_commands st cmds;
          w = (if events st1 e then Released else TimedOut)
      in (run_commands st1 late, w))"

subsection \<open>Applying a Modification Set\<close>

text \<open>\<^verbatim>\<open>for k, v in mods["headers"].items(): headers[k] = v\<close> on the headers of a
  message.\<close>

fun headers_assign :: "fields \<Rightarrow> (string \<times> string) list \<Rightarrow> fields" where
  "headers_assign hs [] = hs"
| "headers_assign hs ((k, v) # kvs) = headers_assign (header_set hs k v) kvs"

text \<open>\<^verbatim>\<open>dict.update\<close> on a plain dictionary, whose keys are exact.\<close>

fun dict_update :: "dict \<Rightarrow> (string \<times> string) list \<Rightarrow> dict" where
  "dict_update d [] = d"
| "dict_update d ((k, v) # kvs) = dict_update (d(k \<mapsto> v)) kvs"

text \<open>mitmproxy's \<^verbatim>\<open>set_text\<close> on a request and on a response.\<close>

definition request_set_text :: "env \<Rightarrow> http_request \<Rightarrow> string \<Rightarrow> http_request" where
  "request_set_text ev request text =
     request\<lparr>req_headers := fst (set_text ev (req_headers request) text),
              req_content := Some (snd (set_text ev (req_headers request) text))\<rparr>"

definition response_set_text :: "env \<Rightarrow> http_response \<Rightarrow> string \<Rightarrow> http_response" where
  "response_set_text ev response text =
     response\<lparr>resp_headers := fst (set_text ev (resp_headers response) text),
               resp_content := Some (snd (set_text ev (resp_headers response) text))\<rparr>"

text \<open>
  The body and header edits of the request hook (after the drop test), with the value of
  \<^verbatim>\<open>request_modified\<close>.
\<close>

definition apply_request_mods ::
  "env \<Rightarrow> modifications \<Rightarrow> http_request \<Rightarrow> http_request \<times> bool" where
  "apply_request_mods ev mods request =
     (let (r1, m1) = (case mod_body mods of
                        Some b \<Rightarrow> (request_set_text ev request b, True)
                      | None \<Rightarrow> (request, False));
          (r2, m2) = (case mod_headers mods of
                        Some kvs \<Rightarrow> (r1\<lparr>req_headers := headers_assign (req_headers r1) kvs\<rparr>, True)
                      | None \<Rightarrow> (r1, m1))
      in (r2, m2))"

text \<open>The body, status and header edits of the response hook, with the value of
  \<^verbatim>\<open>response_modified\<close>.\<close>

definition apply_response_mods ::
  "env \<Rightarrow> modifications \<Rightarrow> http_response \<Rightarrow> http_response \<times> bool" where
  "apply_response_mods ev mods response =
     (let (r1, m1) = (case mod_body mods of
                        Some b \<Rightarrow> (response_set_text ev response b, True)
                      | None \<Rightarrow> (response, False));
          (r2, m2) = (case mod_status_code mods of
                        Some c \<Rightarrow> (r1\<lparr>resp_status_code := c\<rparr>, True)
                      | None \<Rightarrow> (r1, m1));
          (r3, m3) = (case mod_headers mods of
                        Some kvs \<Rightarrow> (r2\<lparr>resp_headers := headers_assign (resp_headers r2) kvs\<rparr>, True)
                      | None \<Rightarrow> (r2, m2))
      in (r3, m3))"

subsection \<open>The request hook\<close>

text \<open>
  \<^verbatim>\<open>request\<close> up to the wait: the snapshot, the \<^verbatim>\<open>request\<close> message, the pause
  decision, and, when pausing, the new event stored in \<^verbatim>\<open>pending_flows\<close> and the
  \<^verbatim>\<open>intercept_request\<close> message. The result carries the snapshot and the event waited
  on (\<^const>\<open>None\<close> when the hook does not pause).
\<close>

definition request_begin :: "env \<Rightarrow> addon \<Rightarrow> flow \<Rightarrow> addon \<times> flow_data \<times> event option" where
  "request_begin ev st fl =
     (let flow_data = flow_to_dict ev fl False;
          st1 = send_to_backend st (MRequest flow_data);
          should_intercept_v = should_intercept st1 (req_host (flow_request fl));
          should_apply = should_apply_rules st1
      in if should_intercept_v \<or> should_apply
         then (let (event, st2) = new_event st1;
                   st3 = st2\<lparr>pending_flows := (pending_flows st2)(flow_ident fl \<mapsto> event)\<rparr>;
                   st4 = send_to_backend st3 (MInterceptRequest flow_data)
               in (st4, flow_data, Some event))
         else (st1, flow_data, None))"

text \<open>
  \<^verbatim>\<open>request\<close> after the wait, whichever way it ended: the \<^verbatim>\<open>finally\<close> clause, the
  stored modifications, the \<^verbatim>\<open>request_modified\<close> message.
\<close>

definition request_resume :: "env \<Rightarrow> addon \<Rightarrow> flow \<Rightarrow> flow_data \<Rightarrow> addon \<times> flow" where
  "request_resume ev st fl flow_data =
     (let flow_id = flow_ident fl;
          st1 = st\<lparr>pending_flows := (pending_flows st)(flow_id := None)\<rparr>
      in case flow_modifications st1 flow_id of
           None \<Rightarrow> (st1, fl)
         | Some mods \<Rightarrow>
             (let st2 = st1\<lparr>flow_modifications := (flow_modifications st1)(flow_id := None)\<rparr>
              in if mod_drop mods = Some True
                 then (st2, fl\<lparr>flow_killed := True\<rparr>)
                 else (let (request, request_modified) =
                             apply_request_mods ev mods (flow_request fl);
                           fl1 = fl\<lparr>flow_request := request\<rparr>
                       in if request_modified
                          then (send_to_backend st2
                                  (MRequestModified (flow_ident fl1) (fd_request flow_data)
                                     (fd_request (flow_to_dict ev fl1 False))),
                                fl1)
                          else (st2, fl1))))"

text \<open>The whole hook; \<^verbatim>\<open>cmds\<close> and \<^verbatim>\<open>late\<close> are the commands handled during its wait
  and between the end of the wait and its running again.\<close>

definition request ::
  "env \<Rightarrow> addon \<Rightarrow> flow \<Rightarrow> command list \<Rightarrow> command list \<Rightarrow>
   addon \<times> flow \<times> wait_result option" where
  "request ev st fl cmds late =
     (case request_begin ev st fl of
        (st1, flow_data, None) \<Rightarrow> (st1, fl, None)
      | (st1, flow_data, Some event) \<Rightarrow>
          (let (st2, w) = await_release st1 event cmds late;
               (st3, fl1) = request_resume ev st2 fl flow_data
           in (st3, fl1, Some w)))"

subsection \<open>The response hooks\<close>

datatype error = AttributeError

definition responseheaders :: "addon \<Rightarrow> flow \<Rightarrow> error + addon" where
  "responseheaders st fl =
     (case flow_response fl of
        None \<Rightarrow> Inl AttributeError
      | Some response \<Rightarrow>
          (let content_type = (case header_get (resp_headers response) ''content-type'' of
                                 None \<Rightarrow> [] | Some v \<Rightarrow> v)
           in if str_in ''text/event-stream'' content_type
              then Inr (st\<lparr>streaming_flows := insert (flow_ident fl) (streaming_flows st)\<rparr>)
              else Inr st))"

text \<open>
  \<^verbatim>\<open>response\<close> up to the wait: the snapshot with the response, the streaming mark, the
  pause decision and, when pausing, the new event stored in \<^verbatim>\<open>response_pending\<close> and
  the \<^verbatim>\<open>intercept_response\<close> message.
\<close>

definition response_begin :: "env \<Rightarrow> addon \<Rightarrow> flow \<Rightarrow> addon \<times> flow_data \<times> event option" where
  "response_begin ev st fl =
     (let flow_data0 = flow_to_dict ev fl True;
          (st0, flow_data) =
             (if flow_ident fl \<in> streaming_flows st
              then (st\<lparr>streaming_flows := streaming_flows st - {flow_ident fl}\<rparr>,
                    flow_data0\<lparr>fd_stream_complete := True\<rparr>)
              else (st, flow_data0));
          should_intercept_v = should_intercept st0 (req_host (flow_request fl));
          should_apply = should_apply_rules st0
      in if should_intercept_v \<or> should_apply
         then (let (event, st2) = new_event st0;
                   st3 = st2\<lparr>response_pending := (response_pending st2)(flow_ident fl \<mapsto> event)\<rparr>;
                   st4 = send_to_backend st3 (MInterceptResponse flow_data)
               in (st4, flow_data, Some event))
         else (st0, flow_data, None))"

text \<open>After the wait: the \<^verbatim>\<open>finally\<close> clause and the stored modifications, with the value
  of \<^verbatim>\<open>response_modified\<close>.\<close>

definition response_resume ::
  "env \<Rightarrow> addon \<Rightarrow> flow \<Rightarrow> http_response \<Rightarrow> addon \<times> flow \<times> bool" where
  "response_resume ev st fl response =
     (let flow_id = flow_ident fl;
          st1 = st\<lparr>response_pending := (response_pending st)(flow_id := None)\<rparr>
      in case response_modifications st1 flow_id of
           None \<Rightarrow> (st1, fl, False)
         | Some mods \<Rightarrow>
             (let st2 = st1\<lparr>response_modifications :=
                               (response_modifications st1)(flow_id := None)\<rparr>;
                  (response1, response_modified) = apply_response_mods ev mods response
              in (st2, fl\<lparr>flow_response := Some response1\<rparr>, response_modified)))"

text \<open>The end of the hook, on both paths: the snapshot taken again and the \<^verbatim>\<open>response\<close>
  message.\<close>

definition response_finish :: "env \<Rightarrow> addon \<Rightarrow> flow \<Rightarrow> flow_data \<Rightarrow> bool \<Rightarrow> addon" where
  "response_finish ev st fl flow_data response_modified =
     (let final0 = flow_to_dict ev fl True;
          final1 = (if flow_ident fl \<in> streaming_flows st \<or> fd_stream_complete flow_data
                    then final0\<lparr>fd_stream_complete := True\<rparr> else final0);
          final2 = (if response_modified
                    then final1\<lparr>fd_original_response := fd_response flow_data,
                                fd_response_modified := True\<rparr>
                    else final1)
      in send_to_backend st (MResponse final2))"

text \<open>The whole hook. mitmproxy calls it with a response present; without one the first
  statement raises.\<close>

definition response ::
  "env \<Rightarrow> addon \<Rightarrow> flow \<Rightarrow> command list \<Rightarrow> command list \<Rightarrow>
   error + addon \<times> flow \<times> wait_result option" where
  "response ev st fl cmds late =
     (case flow_response fl of
        None \<Rightarrow> Inl AttributeError
      | Some response0 \<Rightarrow>
          (case response_begin ev st fl of
             (st1, flow_data, None) \<Rightarrow>
               Inr (response_finish ev st1 fl flow_data False, fl, None)
           | (st1, flow_data, Some event) \<Rightarrow>
               (let (st2, w) = await_release st1 event cmds late;
                    (st3, fl1, response_modified) = response_resume ev st2 fl response0
                in Inr (response_finish ev st3 fl1 flow_data response_modified, fl1, Some w))))"

subsection \<open>Replay\<close>

definition empty_request_data :: replay_request_data where
  "empty_request_data = \<lparr>rq_method = None, rq_url = None, rq_headers = None, rq_body = None\<rparr>"

definition replay_flow_data ::
  "flow_id \<Rightarrow> request_info \<Rightarrow> response_info option \<Rightarrow> bool \<Rightarrow> replay_source \<Rightarrow> bool \<Rightarrow> flow_data"
  where
  "replay_flow_data flow_id request_v response_v is_llm source response_modified =
     \<lparr>fd_flow_id = flow_id, fd_request = request_v, fd_is_llm_api = is_llm,
      fd_response = response_v, fd_stream_complete = False, fd_original_response = None,
      fd_response_modified = response_modified, fd_replay_source = Some source\<rparr>"

text \<open>The edits of a replayed response: they are written into the snapshot, which is all
  there is of a replayed response.\<close>

definition replay_apply_mods :: "modifications \<Rightarrow> response_info \<Rightarrow> response_info \<times> bool" where
  "replay_apply_mods mods response_v =
     (let (r1, m1) = (case mod_body mods of
                        Some b \<Rightarrow> (response_v\<lparr>rs_content := Some b\<rparr>, True)
                      | None \<Rightarrow> (response_v, False));
          (r2, m2) = (case mod_status_code mods of
                        Some c \<Rightarrow> (r1\<lparr>rs_status_code := c\<rparr>, True)
                      | None \<Rightarrow> (r1, m1));
          (r3, m3) = (case mod_headers mods of
                        Some kvs \<Rightarrow> (r2\<lparr>rs_headers := dict_update (rs_headers r2) kvs\<rparr>, True)
                      | None \<Rightarrow> (r2, m2))
      in (r3, m3))"

text \<open>The response part of a replay, from \<^verbatim>\<open>if intercept_response:\<close> to the end.\<close>

definition replay_respond ::
  "addon \<Rightarrow> replay_spec \<Rightarrow> flow_id \<Rightarrow> request_info \<Rightarrow> bool \<Rightarrow> replay_source \<Rightarrow>
   response_info \<Rightarrow> bool \<Rightarrow> command list \<Rightarrow> command list \<Rightarrow> addon" where
  "replay_respond st data flow_id request_v is_llm source response_v intercept_response cmds
     late =
     (let (st5, response1, response_modified) =
            (if intercept_response
             then (let (event, st1) = new_event st;
                       st2 = st1\<lparr>response_pending := (response_pending st1)(flow_id \<mapsto> event)\<rparr>;
                       st3 = send_to_backend st2
                               (MInterceptResponse
                                  (replay_flow_data flow_id request_v (Some response_v) is_llm
                                     source False));
                       (st4, w) = await_release st3 event cmds late;
                       st5 = st4\<lparr>response_pending := (response_pending st4)(flow_id := None)\<rparr>
                   in case response_modifications st5 flow_id of
                        None \<Rightarrow> (st5, response_v, False)
                      | Some mods \<Rightarrow>
                          (let (r, m) = replay_apply_mods mods response_v
                           in (st5\<lparr>response_modifications :=
                                      (response_modifications st5)(flow_id := None)\<rparr>, r, m)))
             else (st, response_v, False));
          st6 = send_to_backend st5
                  (MResponse
                     (replay_flow_data flow_id request_v (Some response1) is_llm source
                        response_modified))
      in send_to_backend st6
           (MReplayComplete (rp_replay_id data) (rp_variant_id data) flow_id True))"

text \<open>\<^verbatim>\<open>_handle_replay_request\<close>; \<^verbatim>\<open>cmds\<close> and \<^verbatim>\<open>late\<close> are the commands handled during
  the wait of an intercepted response and between its end and the task's running again.\<close>

definition handle_replay_request ::
  "env \<Rightarrow> addon \<Rightarrow> replay_spec \<Rightarrow> command list \<Rightarrow> command list \<Rightarrow> addon" where
  "handle_replay_request ev st data cmds late =
     (let replay_id = rp_replay_id data;
          variant_id = rp_variant_id data;
          request_data = (case rp_request data of None \<Rightarrow> empty_request_data | Some r \<Rightarrow> r);
          intercept_response = (case rp_intercept_response data of None \<Rightarrow> False | Some b \<Rightarrow> b);
          method = (case rq_method request_data of None \<Rightarrow> ''GET'' | Some m \<Rightarrow> m);
          url_opt = rq_url request_data;
          hdrs = (case rq_headers request_data of None \<Rightarrow> Map.empty | Some h \<Rightarrow> h);
          body = rq_body request_data
      in if url_opt = None \<or> url_opt = Some []
         then send_to_backend st (MReplayResponse replay_id variant_id None ''Missing URL'')
         else (let url = (case url_opt of Some u \<Rightarrow> u | None \<Rightarrow> []);
                   flow_id = ''replay_'' @ replay_id
               in case urlparse ev url of
                    Inl e \<Rightarrow>
                      send_to_backend st
                        (MReplayResponse replay_id variant_id None (''Invalid URL: '' @ e))
                  | Inr parsed \<Rightarrow>
                      (let host = (case pu_hostname parsed of None \<Rightarrow> [] | Some h \<Rightarrow> h);
                           default_port = (if pu_scheme parsed = ''https'' then 443 else 80);
                           port = (case pu_port parsed of
                                     None \<Rightarrow> default_port
                                   | Some p \<Rightarrow> if p = 0 then default_port else p);
                           path0 = (if pu_path parsed = [] then ''/'' else pu_path parsed);
                           path = (if pu_query parsed \<noteq> [] then path0 @ ''?'' @ pu_query parsed
                                   else path0);
                           is_llm = is_llm_api host;
                           request_v = \<lparr>ri_method = method, ri_url = url, ri_host = host,
                                        ri_port = port, ri_path = path, ri_headers = hdrs,
                                        ri_content = body\<rparr>;
                           source = \<lparr>src_variant_id = variant_id,
                                     src_parent_flow_id = rp_parent_flow_id data\<rparr>;
                           st1 = send_to_backend st
                                   (MRequest (replay_flow_data flow_id request_v None is_llm
                                                source False));
                           call = \<lparr>hc_method = method, hc_url = url, hc_headers = hdrs,
                                   hc_content = (case body of
                                                   None \<Rightarrow> None
                                                 | Some b \<Rightarrow> if b = [] then None
                                                            else Some (str_encode ev b))\<rparr>;
                           st2 = st1\<lparr>http_log := http_log st1 @ [call]\<rparr>
                       in case http_client ev call of
                            Inl e \<Rightarrow>
                              send_to_backend st2
                                (MReplayResponse replay_id variant_id (Some flow_id) e)
                          | Inr res \<Rightarrow>
                              replay_respond st2 data flow_id request_v is_llm source
                                \<lparr>rs_status_code = hr_status_code res,
                                 rs_reason = hr_reason_phrase res,
                                 rs_headers = hr_headers res,
                                 rs_content = Some (hr_text res)\<rparr>
                                intercept_response cmds late)))"

section \<open>A concrete environment and flow\<close>

text \<open>Used to run the operations on explicit inputs: the default body limit, a decoder
  and an encoder that leave ASCII text as it is, a \<^verbatim>\<open>set_text\<close> that writes
  \<^verbatim>\<open>content-length\<close> unless there is a \<^verbatim>\<open>transfer-encoding\<close>, a URL parser that knows one
  URL, and an HTTP client that answers every call with the same response.\<close>

definition ex_env :: env where
  "ex_env =
     \<lparr>MAX_BODY_SIZE = DEFAULT_MAX_BODY_SIZE,
      decode_utf8 = (\<lambda>c. Some c),
      set_text = (\<lambda>hs t. (if header_get hs ''transfer-encoding'' = None
                           then header_set hs ''content-length'' (str_nat (length t))
                           else hs, t)),
      str_encode = (\<lambda>t. t),
      urlparse = (\<lambda>u. if u = ''https://api.openai.com/v1/chat''
                        then Inr \<lparr>pu_scheme = ''https'', pu_hostname = Some ''api.openai.com'',
                                  pu_port = None, pu_path = ''/v1/chat'', pu_query = []\<rparr>
                        else Inl ''bad url''),
      http_client = (\<lambda>c. Inr \<lparr>hr_status_code = 200, hr_reason_phrase = ''OK'',
                               hr_headers = Map.empty, hr_text = ''pong''\<rparr>)\<rparr>"

definition ex_request :: http_request where
  "ex_request =
     \<lparr>req_method = ''POST'', req_pretty_url = ''https://example.com/a'',
      req_url = ''https://example.com/a'', req_host = ''example.com'', req_port = 443,
      req_path = ''/a'', req_headers = [(''accept'', ''*/*''), (''content-length'', ''4'')],
      req_content = Some ''ping''\<rparr>"

definition ex_response :: http_response where
  "ex_response =
     \<lparr>resp_status_code = 200, resp_reason = ''OK'',
      resp_headers = [(''server'', ''x''), (''Content-Length'', ''4'')],
      resp_content = Some ''pong''\<rparr>"

definition ex_flow :: flow where
  "ex_flow =
     \<lparr>flow_ident = ''f1'', flow_request = ex_request, flow_response = None,
      flow_killed = False\<rparr>"

definition ex_flow_resp :: flow where
  "ex_flow_resp = ex_flow\<lparr>flow_response := Some ex_response\<rparr>"

definition ex_intercept_all :: addon where
  "ex_intercept_all = init_addon\<lparr>intercept_mode := ''intercept_all''\<rparr>"

text \<open>Passthrough mode with the rules toggle on.\<close>

definition ex_rules_on :: addon where
  "ex_rules_on = init_addon\<lparr>rules_enabled := True\<rparr>"

text \<open>The state in which the request hook of \<^const>\<open>ex_flow\<close> is waiting.\<close>

definition ex_waiting :: addon where
  "ex_waiting = fst (request_begin ex_env ex_intercept_all ex_flow)"

text \<open>The state in which the response hook of \<^const>\<open>ex_flow_resp\<close> is waiting.\<close>

definition ex_waiting_resp :: addon where
  "ex_waiting_resp = fst (response_begin ex_env ex_intercept_all ex_flow_resp)"

definition ex_replay_no_url :: replay_spec where
  "ex_replay_no_url =
     \<lparr>rp_replay_id = ''r1'', rp_variant_id = ''v1'',
      rp_request = Some \<lparr>rq_method = Some ''GET'', rq_url = None, rq_headers = None,
                         rq_body = None\<rparr>,
      rp_intercept_response = Some True, rp_parent_flow_id = None\<rparr>"

definition ex_mods :: modifications where
  "ex_mods =
     \<lparr>mod_drop = None, mod_body = Some ''new'',
      mod_headers = Some [(''x-test'', ''1''), (''Accept'', ''text/html'')],
      mod_status_code = Some 404\<rparr>"

definition ex_released :: addon where
  "ex_released = process_backend_command ex_waiting (ForwardModified ''f1'' (Some ex_mods))"

definition ex_released_resp :: addon where
  "ex_released_resp =
     process_backend_command ex_waiting_resp (ForwardResponseModified ''f1'' (Some ex_mods))"

text \<open>The flows as the edits of \<^const>\<open>ex_mods\<close> leave them.\<close>

definition ex_flow_edited :: flow where
  "ex_flow_edited =
     ex_flow\<lparr>flow_request := fst (apply_request_mods ex_env ex_mods ex_request)\<rparr>"

definition ex_flow_resp_edited :: flow where
  "ex_flow_resp_edited =
     ex_flow_resp\<lparr>flow_response := Some (fst (apply_response_mods ex_env ex_mods ex_response))\<rparr>"

text \<open>Commands that name no waiting flow.\<close>

definition ex_cmds :: "command list" where
  "ex_cmds = [SetRulesEnabled (Some True), Forward ''f2'', UnknownCommand ''ping'']"

section \<open>Observations\<close>

text \<open>The messages handed to \<^const>\<open>send_to_backend\<close> between two states of a run.\<close>

definition sent :: "addon \<Rightarrow> addon \<Rightarrow> message list" where
  "sent st st' = drop (length (outbox st)) (outbox st')"

text \<open>The condition on which the request and response hooks pause.\<close>

definition pauses :: "addon \<Rightarrow> flow \<Rightarrow> bool" where
  "pauses st fl \<longleftrightarrow> should_intercept st (req_host (flow_request fl)) \<or> should_apply_rules st"

text \<open>The snapshot the response hook takes first, with its streaming mark.\<close>

definition response_snapshot :: "env \<Rightarrow> addon \<Rightarrow> flow \<Rightarrow> flow_data" where
  "response_snapshot ev st fl =
     (flow_to_dict ev fl True)\<lparr>fd_stream_complete := flow_ident fl \<in> streaming_flows st\<rparr>"

text \<open>
  The state in which a paused hook runs again, after the commands handled since it began
  to wait; and whether the Modification Set stored for its flow in that state makes it
  edit the flow.
\<close>

definition request_resumed :: "env \<Rightarrow> addon \<Rightarrow> flow \<Rightarrow> command list \<Rightarrow> addon" where
  "request_resumed ev st fl cmds = run_commands (fst (request_begin ev st fl)) cmds"

definition response_resumed :: "env \<Rightarrow> addon \<Rightarrow> flow \<Rightarrow> command list \<Rightarrow> addon" where
  "response_resumed ev st fl cmds = run_commands (fst (response_begin ev st fl)) cmds"

definition edits_request :: "modifications \<Rightarrow> bool" where
  "edits_request mods \<longleftrightarrow> mod_body mods \<noteq> None \<or> mod_headers mods \<noteq> None"

definition edits_response :: "modifications \<Rightarrow> bool" where
  "edits_response mods \<longleftrightarrow>
     mod_body mods \<noteq> None \<or> mod_status_code mods \<noteq> None \<or> mod_headers mods \<noteq> None"

definition request_edited :: "env \<Rightarrow> addon \<Rightarrow> flow \<Rightarrow> command list \<Rightarrow> bool" where
  "request_edited ev st fl cmds \<longleftrightarrow>
     pauses st fl \<and>
     (case flow_modifications (request_resumed ev st fl cmds) (flow_ident fl) of
        None \<Rightarrow> False
      | Some mods \<Rightarrow> mod_drop mods \<noteq> Some True \<and> edits_request mods)"

definition response_edited :: "env \<Rightarrow> addon \<Rightarrow> flow \<Rightarrow> command list \<Rightarrow> bool" where
  "response_edited ev st fl cmds \<longleftrightarrow>
     pauses st fl \<and>
     (case response_modifications (response_resumed ev st fl cmds) (flow_ident fl) of
        None \<Rightarrow> False
      | Some mods \<Rightarrow> edits_response mods)"

text \<open>The messages the response hook sends, and the flow it leaves.\<close>

definition response_sent ::
  "env \<Rightarrow> addon \<Rightarrow> flow \<Rightarrow> command list \<Rightarrow> command list \<Rightarrow> message list" where
  "response_sent ev st fl cmds late =
     (case response ev st fl cmds late of Inl e \<Rightarrow> [] | Inr x \<Rightarrow> sent st (fst x))"

definition response_flow ::
  "env \<Rightarrow> addon \<Rightarrow> flow \<Rightarrow> command list \<Rightarrow> command list \<Rightarrow> flow" where
  "response_flow ev st fl cmds late =
     (case response ev st fl cmds late of Inl e \<Rightarrow> fl | Inr x \<Rightarrow> fst (snd x))"

text \<open>The \<^verbatim>\<open>"type"\<close> fields of the messages a hook sends, in order.\<close>

definition request_types ::
  "env \<Rightarrow> addon \<Rightarrow> flow \<Rightarrow> command list \<Rightarrow> command list \<Rightarrow> string list" where
  "request_types ev st fl cmds late =
     map msg_type (sent st (fst (request ev st fl cmds late)))"

definition response_types ::
  "env \<Rightarrow> addon \<Rightarrow> flow \<Rightarrow> command list \<Rightarrow> command list \<Rightarrow> error + string list" where
  "response_types ev st fl cmds late =
     (case response ev st fl cmds late of
        Inl e \<Rightarrow> Inl e
      | Inr r \<Rightarrow> Inr (map msg_type (sent st (fst r))))"

text \<open>The commands that store a Modification Set (or a drop) for a flow when it is
  waiting, and the lists of commands with none of them.\<close>

fun carries_modification :: "flow_id \<Rightarrow> command \<Rightarrow> bool" where
  "carries_modification f (ForwardModified g m) = (g = f)"
| "carries_modification f (Drop g) = (g = f)"
| "carries_modification f (ForwardResponseModified g m) = (g = f)"
| "carries_modification f c = False"

definition quiet :: "flow_id \<Rightarrow> command list \<Rightarrow> bool" where
  "quiet f cmds = list_all (\<lambda>c. \<not> carries_modification f c) cmds"

text \<open>The \<^verbatim>\<open>forward_modified\<close> commands for a flow, and the lists of commands with none.\<close>

fun forward_modified_for :: "flow_id \<Rightarrow> command \<Rightarrow> bool" where
  "forward_modified_for f (ForwardModified g m) = (g = f)"
| "forward_modified_for f c = False"

definition no_forward_modified :: "flow_id \<Rightarrow> command list \<Rightarrow> bool" where
  "no_forward_modified f cmds = list_all (\<lambda>c. \<not> forward_modified_for f c) cmds"

text \<open>The value a header edit gives to a name: the one of the last item of the edit whose
  key is that name, whatever the case of its letters; \<^const>\<open>None\<close> when the edit does not
  name it.\<close>

definition edit_value :: "(string \<times> string) list \<Rightarrow> string \<Rightarrow> string option" where
  "edit_value kvs key = map_of (rev (map (\<lambda>kv. (lower (fst kv), snd kv)) kvs)) (lower key)"

text \<open>A replay command without a URL: \<^verbatim>\<open>not url\<close> holds when the key is absent, also
  when the \<^verbatim>\<open>request\<close> object is, and when the URL is the empty string.\<close>

definition missing_url :: "replay_spec \<Rightarrow> bool" where
  "missing_url data =
     (case rp_request data of
        None \<Rightarrow> True
      | Some request_data \<Rightarrow> rq_url request_data = None \<or> rq_url request_data = Some [])"

text \<open>
  Every stored Modification Set belongs to a wait that is still registered and whose
  event has been set, and the registered events are addresses already handed out.
\<close>

definition registry_ok :: "addon \<Rightarrow> bool" where
  "registry_ok st \<longleftrightarrow>
     (\<forall>f. flow_modifications st f \<noteq> None \<longrightarrow>
          (\<exists>e. pending_flows st f = Some e \<and> events st e))
     \<and> (\<forall>f. response_modifications st f \<noteq> None \<longrightarrow>
          (\<exists>e. response_pending st f = Some e \<and> events st e))
     \<and> (\<forall>f e. pending_flows st f = Some e \<longrightarrow> e < next_event st)
     \<and> (\<forall>f e. response_pending st f = Some e \<longrightarrow> e < next_event st)"

text \<open>
  The states of a run: the hooks of different flows interleave at their waits, so a run
  is any sequence of commands and of the hooks' steps, in which a hook registers a flow
  id only when no wait of that phase is registered under it (mitmproxy gives every flow
  an id of its own and runs each hook once per flow).
\<close>

inductive reachable :: "addon \<Rightarrow> bool" where
  start: "reachable init_addon"
| command: "reachable st \<Longrightarrow> reachable (process_backend_command st c)"
| request_begins:
    "reachable st \<Longrightarrow> pending_flows st (flow_ident fl) = None \<Longrightarrow>
     reachable (fst (request_begin ev st fl))"
| request_resumes: "reachable st \<Longrightarrow> reachable (fst (request_resume ev st fl d))"
| response_begins:
    "reachable st \<Longrightarrow> response_pending st (flow_ident fl) = None \<Longrightarrow>
     reachable (fst (response_begin ev st fl))"
| response_resumes: "reachable st \<Longrightarrow> reachable (fst (response_resume ev st fl r))"
| response_finishes: "reachable st \<Longrightarrow> reachable (response_finish ev st fl d b)"

section \<open>Properties\<close>

subsection \<open>Known endpoints and modes\<close>

lemma str_in_sublist: "str_in h s = sublist h s"
  by (induction s) (simp_all add: sublist_Cons_right)

lemma str_in_iff: "str_in h s \<longleftrightarrow> (\<exists>p q. s = p @ h @ q)"
  by (simp add: str_in_sublist sublist_def)

text \<open>
  Claim C10. The known-endpoint flag is substring containment: a host is flagged exactly
  when some entry of \<^const>\<open>LLM_API_HOSTS\<close> occurs somewhere inside it, so a host that is
  not in the list is flagged too when it merely contains a listed name.
\<close>

theorem is_llm_api_substring:
  "(is_llm_api host \<longleftrightarrow> (\<exists>h p q. h \<in> set LLM_API_HOSTS \<and> host = p @ h @ q))
   \<and> (\<exists>host'. host' \<notin> set LLM_API_HOSTS \<and> is_llm_api host')"
proof
  show "is_llm_api host \<longleftrightarrow> (\<exists>h p q. h \<in> set LLM_API_HOSTS \<and> host = p @ h @ q)"
    by (simp add: is_llm_api_def list_ex_iff str_in_iff) blast
next
  have a: "''notapi.openai.com.evil.example'' \<notin> set LLM_API_HOSTS"
    by (simp add: LLM_API_HOSTS_def)
  have b: "is_llm_api ''notapi.openai.com.evil.example''"
    by (simp add: is_llm_api_def LLM_API_HOSTS_def)
  from a b show "\<exists>host'. host' \<notin> set LLM_API_HOSTS \<and> is_llm_api host'" by blast
qed

theorem is_llm_api_substring_witness:
  "is_llm_api ''notapi.openai.com.evil.example''
   \<and> ''notapi.openai.com.evil.example'' \<notin> set LLM_API_HOSTS"
proof -
  have "''api.openai.com'' \<in> set LLM_API_HOSTS
        \<and> ''notapi.openai.com.evil.example'' = ''not'' @ ''api.openai.com'' @ ''.evil.example''"
    by (simp add: LLM_API_HOSTS_def)
  then have "\<exists>h p q. h \<in> set LLM_API_HOSTS \<and> ''notapi.openai.com.evil.example'' = p @ h @ q"
    by blast
  then have "is_llm_api ''notapi.openai.com.evil.example''"
    using is_llm_api_substring [of "''notapi.openai.com.evil.example''"] by blast
  then show ?thesis by (simp add: LLM_API_HOSTS_def)
qed

text \<open>
  Claim C9. A \<^verbatim>\<open>set_intercept_mode\<close> command stores its mode as it comes; when the
  stored mode is none of the three known ones, \<^const>\<open>should_intercept\<close> is false for every
  host, as it is in passthrough mode.
\<close>

theorem unknown_mode_is_passthrough:
  assumes "m \<noteq> ''passthrough''" and "m \<noteq> ''intercept_llm''" and "m \<noteq> ''intercept_all''"
  shows "intercept_mode (process_backend_command st (SetInterceptMode (Some m))) = m
         \<and> \<not> should_intercept (process_backend_command st (SetInterceptMode (Some m))) host"
  using assms by (simp add: should_intercept_def)

theorem unknown_mode_is_passthrough_witness:
  "intercept_mode (process_backend_command init_addon (SetInterceptMode (Some ''intercept''))) =
     ''intercept''
   \<and> \<not> should_intercept (process_backend_command init_addon (SetInterceptMode (Some ''intercept'')))
         ''api.openai.com''"
  using unknown_mode_is_passthrough [of "''intercept''" init_addon "''api.openai.com''"]
  by simp

subsection \<open>Captured bodies\<close>

lemma length_str_nat_bound: "0 < k \<Longrightarrow> n < 10 ^ k \<Longrightarrow> length (str_nat n) \<le> k"
proof (induction n arbitrary: k rule: str_nat.induct)
  case (1 n)
  show ?case
  proof (cases "n < 10")
    case True
    then show ?thesis using "1.prems" by (simp add: str_nat.simps [of n])
  next
    case False
    then obtain j where k: "k = Suc j" "0 < j"
      using "1.prems" by (cases k; cases "k - 1") auto
    have "n div 10 < 10 ^ j" using "1.prems" k by (simp add: less_mult_imp_div_less mult.commute)
    then have "length (str_nat (n div 10)) \<le> j" using "1.IH" False k by simp
    then show ?thesis using False k by (simp add: str_nat.simps [of n])
  qed
qed

lemma length_truncated_placeholder:
  "length (truncated_placeholder n) = 33 + length (str_nat n)"
  by (simp add: truncated_placeholder_def)

text \<open>
  Claim C8. A body that is present (not empty) and longer than \<^const>\<open>MAX_BODY_SIZE\<close> is
  captured, for a host that is not a known endpoint, as the placeholder
  \<^verbatim>\<open>[Content truncated, N bytes total]\<close>, whose length is 33 plus the number of digits
  of \<^verbatim>\<open>N\<close>; for a known endpoint the whole body is decoded, whatever its size. The
  snapshot takes the request body and the response body through this function with the
  known-endpoint flag of the request's host.
\<close>

theorem body_truncated_unless_known_endpoint:
  assumes "c \<noteq> []"
  shows "(MAX_BODY_SIZE ev < int (length c) \<longrightarrow>
            get_body_content ev (Some c) False = Some (truncated_placeholder (length c)))
         \<and> (0 < k \<and> length c < 10 ^ k \<longrightarrow> length (truncated_placeholder (length c)) \<le> 33 + k)
         \<and> (decode_utf8 ev c = Some t \<longrightarrow> get_body_content ev (Some c) True = Some t)
         \<and> ri_content (fd_request (flow_to_dict ev fl b)) =
             get_body_content ev (req_content (flow_request fl))
               (is_llm_api (req_host (flow_request fl)))
         \<and> (flow_response fl = Some r \<longrightarrow>
              map_option rs_content (fd_response (flow_to_dict ev fl True)) =
                Some (get_body_content ev (resp_content r)
                        (is_llm_api (req_host (flow_request fl)))))"
proof (intro conjI impI)
  assume "MAX_BODY_SIZE ev < int (length c)"
  then show "get_body_content ev (Some c) False = Some (truncated_placeholder (length c))"
    using assms by (simp add: get_body_content_def)
next
  assume "0 < k \<and> length c < 10 ^ k"
  then show "length (truncated_placeholder (length c)) \<le> 33 + k"
    using length_str_nat_bound [of k "length c"] by (simp add: length_truncated_placeholder)
next
  assume "decode_utf8 ev c = Some t"
  then show "get_body_content ev (Some c) True = Some t"
    using assms by (simp add: get_body_content_def decode_or_binary_def)
next
  show "ri_content (fd_request (flow_to_dict ev fl b)) =
        get_body_content ev (req_content (flow_request fl)) (is_llm_api (req_host (flow_request fl)))"
    by (simp add: flow_to_dict_def request_to_dict_def Let_def)
next
  assume "flow_response fl = Some r"
  then show "map_option rs_content (fd_response (flow_to_dict ev fl True)) =
      Some (get_body_content ev (resp_content r) (is_llm_api (req_host (flow_request fl))))"
    by (simp add: flow_to_dict_def response_to_dict_def Let_def)
qed

lemma str_nat_4: "str_nat 4 = ''4''"
  by code_simp

theorem body_truncated_unless_known_endpoint_witness:
  "get_body_content (ex_env\<lparr>MAX_BODY_SIZE := 3\<rparr>) (Some ''ping'') False =
     Some ''[Content truncated, 4 bytes total]''
   \<and> length ''[Content truncated, 4 bytes total]'' \<le> 33 + (1::nat)
   \<and> get_body_content (ex_env\<lparr>MAX_BODY_SIZE := 3\<rparr>) (Some ''ping'') True = Some ''ping''
   \<and> ri_content (fd_request (flow_to_dict (ex_env\<lparr>MAX_BODY_SIZE := 3\<rparr>) ex_flow_resp True)) =
       Some ''[Content truncated, 4 bytes total]''
   \<and> map_option rs_content (fd_response (flow_to_dict (ex_env\<lparr>MAX_BODY_SIZE := 3\<rparr>) ex_flow_resp True)) =
       Some (Some ''[Content truncated, 4 bytes total]'')"
proof -
  let ?ev = "ex_env\<lparr>MAX_BODY_SIZE := 3\<rparr>"
  have ne: "''ping'' \<noteq> []" by simp
  have len: "length ''ping'' = 4" by simp
  have host: "\<not> is_llm_api (req_host (flow_request ex_flow_resp))"
    by (simp add: is_llm_api_def LLM_API_HOSTS_def ex_flow_resp_def ex_flow_def ex_request_def)
  have ph: "truncated_placeholder 4 = ''[Content truncated, 4 bytes total]''"
    by (simp add: truncated_placeholder_def str_nat_4)
  have mx: "MAX_BODY_SIZE ?ev < int (length ''ping'')" by simp
  have dec: "decode_utf8 ?ev ''ping'' = Some ''ping''" by (simp add: ex_env_def)
  have rq: "req_content (flow_request ex_flow_resp) = Some ''ping''"
    by (simp add: ex_flow_resp_def ex_flow_def ex_request_def)
  have rs: "flow_response ex_flow_resp = Some ex_response"
    by (simp add: ex_flow_resp_def)
  have rc: "resp_content ex_response = Some ''pong''" by (simp add: ex_response_def)
  have k: "0 < (1::nat) \<and> length ''ping'' < 10 ^ 1" by simp
  note t = body_truncated_unless_known_endpoint
             [OF ne, of ?ev 1 "''ping''" ex_flow_resp True ex_response]
  have a: "get_body_content ?ev (Some ''ping'') False = Some ''[Content truncated, 4 bytes total]''"
    using t mx by (simp only: len ph)
  have b: "length ''[Content truncated, 4 bytes total]'' \<le> 33 + (1::nat)"
    using t k by (simp only: len ph)
  have c: "get_body_content ?ev (Some ''ping'') True = Some ''ping''"
    using t dec by blast
  have d: "ri_content (fd_request (flow_to_dict ?ev ex_flow_resp True)) =
           Some ''[Content truncated, 4 bytes total]''"
    using t a host by (simp only: rq)
  have len': "length ''pong'' = 4" by simp
  have pong: "get_body_content ?ev (Some ''pong'') False = Some ''[Content truncated, 4 bytes total]''"
    by (simp add: get_body_content_def len' ph del: list.size)
  have e: "map_option rs_content (fd_response (flow_to_dict ?ev ex_flow_resp True)) =
           Some (Some ''[Content truncated, 4 bytes total]'')"
    using t rs host pong by (simp only: rc)
  from a b c d e show ?thesis by blast
qed

subsection \<open>Commands and waits\<close>

lemma cmd_outbox [simp]: "outbox (process_backend_command st c) = outbox st"
  by (cases c) (simp_all add: set_event_def split: option.split)

lemma cmd_pending_flows [simp]: "pending_flows (process_backend_command st c) = pending_flows st"
  by (cases c) (simp_all add: set_event_def split: option.split)

lemma cmd_response_pending [simp]:
  "response_pending (process_backend_command st c) = response_pending st"
  by (cases c) (simp_all add: set_event_def split: option.split)

lemma cmd_streaming_flows [simp]:
  "streaming_flows (process_backend_command st c) = streaming_flows st"
  by (cases c) (simp_all add: set_event_def split: option.split)

lemma cmd_next_event [simp]: "next_event (process_backend_command st c) = next_event st"
  by (cases c) (simp_all add: set_event_def split: option.split)

lemma cmd_http_log [simp]: "http_log (process_backend_command st c) = http_log st"
  by (cases c) (simp_all add: set_event_def split: option.split)

lemma cmd_events_mono: "events st e \<Longrightarrow> events (process_backend_command st c) e"
  by (cases c) (simp_all add: set_event_def split: option.split)

lemma run_commands_Nil [simp]: "run_commands st [] = st"
  by (simp add: run_commands_def)

lemma run_commands_Cons [simp]:
  "run_commands st (c # cs) = run_commands (process_backend_command st c) cs"
  by (simp add: run_commands_def)

lemma run_commands_append [simp]:
  "run_commands st (as @ bs) = run_commands (run_commands st as) bs"
  by (simp add: run_commands_def)

lemma run_outbox [simp]: "outbox (run_commands st cmds) = outbox st"
  by (induction cmds arbitrary: st) simp_all

lemma run_pending_flows [simp]: "pending_flows (run_commands st cmds) = pending_flows st"
  by (induction cmds arbitrary: st) simp_all

lemma run_response_pending [simp]: "response_pending (run_commands st cmds) = response_pending st"
  by (induction cmds arbitrary: st) simp_all

lemma run_streaming_flows [simp]: "streaming_flows (run_commands st cmds) = streaming_flows st"
  by (induction cmds arbitrary: st) simp_all

lemma run_next_event [simp]: "next_event (run_commands st cmds) = next_event st"
  by (induction cmds arbitrary: st) simp_all

lemma run_http_log [simp]: "http_log (run_commands st cmds) = http_log st"
  by (induction cmds arbitrary: st) simp_all

lemma run_events_mono: "events st e \<Longrightarrow> events (run_commands st cmds) e"
  by (induction cmds arbitrary: st) (simp_all add: cmd_events_mono)

lemma await_release_fst [simp]:
  "fst (await_release st e cmds late) = run_commands st (cmds @ late)"
  by (simp add: await_release_def Let_def)

lemma await_release_snd [simp]:
  "snd (await_release st e cmds late) =
     (if events (run_commands st cmds) e then Released else TimedOut)"
  by (simp add: await_release_def Let_def)

lemma sent_append [simp]: "outbox st' = outbox st @ ms \<Longrightarrow> sent st st' = ms"
  by (simp add: sent_def)

subsection \<open>The hooks, step by step\<close>

lemma pauses_send [simp]: "pauses (send_to_backend st m) fl = pauses st fl"
  by (simp add: pauses_def should_intercept_def should_apply_rules_def send_to_backend_def)

lemma request_begin_paused:
  "pauses st fl \<Longrightarrow>
   request_begin ev st fl =
     (st\<lparr>outbox := outbox st @ [MRequest (flow_to_dict ev fl False),
                                 MInterceptRequest (flow_to_dict ev fl False)],
         events := (events st)(next_event st := False),
         next_event := Suc (next_event st),
         pending_flows := (pending_flows st)(flow_ident fl \<mapsto> next_event st)\<rparr>,
      flow_to_dict ev fl False, Some (next_event st))"
  using pauses_send [of st "MRequest (flow_to_dict ev fl False)" fl]
  by (simp add: request_begin_def Let_def pauses_def new_event_def send_to_backend_def)

lemma request_begin_not_paused:
  "\<not> pauses st fl \<Longrightarrow>
   request_begin ev st fl =
     (st\<lparr>outbox := outbox st @ [MRequest (flow_to_dict ev fl False)]\<rparr>,
      flow_to_dict ev fl False, None)"
  using pauses_send [of st "MRequest (flow_to_dict ev fl False)" fl]
  by (simp add: request_begin_def Let_def pauses_def send_to_backend_def)

lemma should_intercept_streaming [simp]:
  "should_intercept (st\<lparr>streaming_flows := S\<rparr>) h = should_intercept st h"
  by (simp add: should_intercept_def)

lemma should_apply_rules_streaming [simp]:
  "should_apply_rules (st\<lparr>streaming_flows := S\<rparr>) = should_apply_rules st"
  by (simp add: should_apply_rules_def)

lemma response_begin_paused:
  "pauses st fl \<Longrightarrow>
   response_begin ev st fl =
     (st\<lparr>streaming_flows := streaming_flows st - {flow_ident fl},
         events := (events st)(next_event st := False),
         next_event := Suc (next_event st),
         response_pending := (response_pending st)(flow_ident fl \<mapsto> next_event st),
         outbox := outbox st @ [MInterceptResponse (response_snapshot ev st fl)]\<rparr>,
      response_snapshot ev st fl, Some (next_event st))"
proof (cases "flow_ident fl \<in> streaming_flows st")
  case True
  assume "pauses st fl"
  then show ?thesis using True
    by (simp add: response_begin_def Let_def pauses_def new_event_def send_to_backend_def
          response_snapshot_def)
next
  case False
  then have s: "streaming_flows st - {flow_ident fl} = streaming_flows st" by simp
  have d: "(flow_to_dict ev fl True)\<lparr>fd_stream_complete := False\<rparr> = flow_to_dict ev fl True"
    by (simp add: flow_to_dict_def Let_def)
  assume "pauses st fl"
  then show ?thesis using False
    by (simp add: response_begin_def Let_def pauses_def new_event_def send_to_backend_def
          response_snapshot_def s d)
qed

lemma response_begin_not_paused:
  "\<not> pauses st fl \<Longrightarrow>
   response_begin ev st fl =
     (st\<lparr>streaming_flows := streaming_flows st - {flow_ident fl}\<rparr>,
      response_snapshot ev st fl, None)"
proof (cases "flow_ident fl \<in> streaming_flows st")
  case True
  assume "\<not> pauses st fl"
  then show ?thesis using True
    by (simp add: response_begin_def Let_def pauses_def
          response_snapshot_def)
next
  case False
  then have s: "streaming_flows st - {flow_ident fl} = streaming_flows st" by simp
  have d: "(flow_to_dict ev fl True)\<lparr>fd_stream_complete := False\<rparr> = flow_to_dict ev fl True"
    by (simp add: flow_to_dict_def Let_def)
  assume "\<not> pauses st fl"
  then show ?thesis using False
    by (simp add: response_begin_def Let_def pauses_def
          response_snapshot_def s d)
qed

lemma request_not_paused:
  "\<not> pauses st fl \<Longrightarrow>
   request ev st fl cmds late =
     (st\<lparr>outbox := outbox st @ [MRequest (flow_to_dict ev fl False)]\<rparr>, fl, None)"
  by (simp add: request_def request_begin_not_paused)

lemma request_paused:
  assumes "pauses st fl"
  shows "request ev st fl cmds late =
     (fst (request_resume ev (run_commands (fst (request_begin ev st fl)) (cmds @ late)) fl
             (flow_to_dict ev fl False)),
      snd (request_resume ev (run_commands (fst (request_begin ev st fl)) (cmds @ late)) fl
             (flow_to_dict ev fl False)),
      Some (if events (run_commands (fst (request_begin ev st fl)) cmds) (next_event st)
            then Released else TimedOut))"
  by (simp add: request_def request_begin_paused [OF assms] split_def Let_def
           del: run_commands_append)

lemma response_not_paused:
  "\<not> pauses st fl \<Longrightarrow> flow_response fl = Some r \<Longrightarrow>
   response ev st fl cmds late =
     Inr (response_finish ev (st\<lparr>streaming_flows := streaming_flows st - {flow_ident fl}\<rparr>) fl
            (response_snapshot ev st fl) False, fl, None)"
  by (simp add: response_def response_begin_not_paused)

lemma response_paused:
  assumes "pauses st fl" and "flow_response fl = Some r"
  shows "response ev st fl cmds late =
     Inr (response_finish ev
            (fst (response_resume ev (run_commands (fst (response_begin ev st fl)) (cmds @ late))
                    fl r))
            (fst (snd (response_resume ev
                         (run_commands (fst (response_begin ev st fl)) (cmds @ late)) fl r)))
            (response_snapshot ev st fl)
            (snd (snd (response_resume ev
                         (run_commands (fst (response_begin ev st fl)) (cmds @ late)) fl r))),
          fst (snd (response_resume ev
                      (run_commands (fst (response_begin ev st fl)) (cmds @ late)) fl r)),
          Some (if events (run_commands (fst (response_begin ev st fl)) cmds) (next_event st)
                then Released else TimedOut))"
  by (simp add: response_def assms(2) response_begin_paused [OF assms(1)] split_def Let_def
           del: run_commands_append)

lemma ex_pauses: "should_intercept ex_intercept_all h"
  by (simp add: should_intercept_def ex_intercept_all_def init_addon_def)

lemma ex_flow_ident [simp]: "flow_ident ex_flow = ''f1''" "flow_ident ex_flow_resp = ''f1''"
  by (simp_all add: ex_flow_def ex_flow_resp_def)

lemma ex_flow_response [simp]: "flow_response ex_flow_resp = Some ex_response"
  by (simp add: ex_flow_resp_def)

subsection \<open>The pause decision\<close>

lemma pauses_formula:
  "pauses st fl \<longleftrightarrow>
     intercept_mode st = ''intercept_all''
     \<or> (intercept_mode st = ''intercept_llm'' \<and> is_llm_api (req_host (flow_request fl)))
     \<or> rules_enabled st"
  by (simp add: pauses_def should_intercept_def should_apply_rules_def is_llm_api_def)

lemma request_begin_decision:
  "snd (snd (request_begin ev st fl)) = (if pauses st fl then Some (next_event st) else None)"
  by (simp add: request_begin_paused request_begin_not_paused)

lemma response_begin_decision:
  "snd (snd (response_begin ev st fl)) = (if pauses st fl then Some (next_event st) else None)"
  by (simp add: response_begin_paused response_begin_not_paused)

lemma request_decision: "snd (snd (request ev st fl cmds late)) \<noteq> None \<longleftrightarrow> pauses st fl"
  by (cases "pauses st fl") (simp_all add: request_paused request_not_paused)

lemma response_decision:
  "flow_response fl = Some r \<Longrightarrow>
   (\<exists>st' fl' w. response ev st fl cmds late = Inr (st', fl', Some w)) \<longleftrightarrow> pauses st fl"
  by (cases "pauses st fl") (simp_all add: response_paused response_not_paused)

lemma request_begin_sent:
  "sent st (fst (request_begin ev st fl)) =
     (if pauses st fl
      then [MRequest (flow_to_dict ev fl False), MInterceptRequest (flow_to_dict ev fl False)]
      else [MRequest (flow_to_dict ev fl False)])"
  by (simp add: request_begin_paused request_begin_not_paused)

lemma response_begin_sent:
  "sent st (fst (response_begin ev st fl)) =
     (if pauses st fl then [MInterceptResponse (response_snapshot ev st fl)] else [])"
  by (simp add: response_begin_paused response_begin_not_paused sent_def)

lemma request_begin_registry:
  "pending_flows (fst (request_begin ev st fl)) =
     (if pauses st fl then (pending_flows st)(flow_ident fl \<mapsto> next_event st)
      else pending_flows st)"
  by (simp add: request_begin_paused request_begin_not_paused)

lemma response_begin_registry:
  "response_pending (fst (response_begin ev st fl)) =
     (if pauses st fl then (response_pending st)(flow_ident fl \<mapsto> next_event st)
      else response_pending st)"
  by (simp add: response_begin_paused response_begin_not_paused)

text \<open>
  Claim C3. The condition \<^verbatim>\<open>should_intercept or should_apply\<close> is: the mode is
  intercept-all, or the mode is intercept-known and the host matches the known-endpoint
  list, or the rules toggle is on; with the toggle on it holds for every host and mode.
  The request hook and the response hook pause exactly on this condition, taken at the
  host of the flow's request: then, and only then, the hook creates its event, stores it
  in the registry of its phase, sends the pause message and waits.
\<close>

theorem should_pause_formula:
  "((should_intercept st host \<or> should_apply_rules st) \<longleftrightarrow>
      (intercept_mode st = ''intercept_all''
       \<or> (intercept_mode st = ''intercept_llm'' \<and> is_llm_api host)
       \<or> rules_enabled st))
   \<and> (rules_enabled st \<longrightarrow> should_intercept st host \<or> should_apply_rules st)
   \<and> snd (snd (request_begin ev st fl)) =
       (if intercept_mode st = ''intercept_all''
           \<or> (intercept_mode st = ''intercept_llm'' \<and> is_llm_api (req_host (flow_request fl)))
           \<or> rules_enabled st
        then Some (next_event st) else None)
   \<and> snd (snd (response_begin ev st fl)) =
       (if intercept_mode st = ''intercept_all''
           \<or> (intercept_mode st = ''intercept_llm'' \<and> is_llm_api (req_host (flow_request fl)))
           \<or> rules_enabled st
        then Some (next_event st) else None)
   \<and> sent st (fst (request_begin ev st fl)) =
       (if intercept_mode st = ''intercept_all''
           \<or> (intercept_mode st = ''intercept_llm'' \<and> is_llm_api (req_host (flow_request fl)))
           \<or> rules_enabled st
        then [MRequest (flow_to_dict ev fl False), MInterceptRequest (flow_to_dict ev fl False)]
        else [MRequest (flow_to_dict ev fl False)])
   \<and> sent st (fst (response_begin ev st fl)) =
       (if intercept_mode st = ''intercept_all''
           \<or> (intercept_mode st = ''intercept_llm'' \<and> is_llm_api (req_host (flow_request fl)))
           \<or> rules_enabled st
        then [MInterceptResponse (response_snapshot ev st fl)] else [])
   \<and> pending_flows (fst (request_begin ev st fl)) =
       (if intercept_mode st = ''intercept_all''
           \<or> (intercept_mode st = ''intercept_llm'' \<and> is_llm_api (req_host (flow_request fl)))
           \<or> rules_enabled st
        then (pending_flows st)(flow_ident fl \<mapsto> next_event st) else pending_flows st)
   \<and> response_pending (fst (response_begin ev st fl)) =
       (if intercept_mode st = ''intercept_all''
           \<or> (intercept_mode st = ''intercept_llm'' \<and> is_llm_api (req_host (flow_request fl)))
           \<or> rules_enabled st
        then (response_pending st)(flow_ident fl \<mapsto> next_event st) else response_pending st)
   \<and> (snd (snd (request ev st fl cmds late)) \<noteq> None \<longleftrightarrow>
        intercept_mode st = ''intercept_all''
        \<or> (intercept_mode st = ''intercept_llm'' \<and> is_llm_api (req_host (flow_request fl)))
        \<or> rules_enabled st)
   \<and> (flow_response fl = Some r \<longrightarrow>
        ((\<exists>st' fl' w. response ev st fl cmds late = Inr (st', fl', Some w)) \<longleftrightarrow>
         intercept_mode st = ''intercept_all''
         \<or> (intercept_mode st = ''intercept_llm'' \<and> is_llm_api (req_host (flow_request fl)))
         \<or> rules_enabled st))"
proof -
  have a: "(should_intercept st host \<or> should_apply_rules st) \<longleftrightarrow>
      (intercept_mode st = ''intercept_all''
       \<or> (intercept_mode st = ''intercept_llm'' \<and> is_llm_api host)
       \<or> rules_enabled st)"
    by (simp add: should_intercept_def should_apply_rules_def is_llm_api_def)
  have b: "rules_enabled st \<longrightarrow> should_intercept st host \<or> should_apply_rules st"
    by (simp add: should_apply_rules_def)
  note f = pauses_formula [of st fl, symmetric]
  have c: "flow_response fl = Some r \<longrightarrow>
        ((\<exists>st' fl' w. response ev st fl cmds late = Inr (st', fl', Some w)) \<longleftrightarrow>
         intercept_mode st = ''intercept_all''
         \<or> (intercept_mode st = ''intercept_llm'' \<and> is_llm_api (req_host (flow_request fl)))
         \<or> rules_enabled st)"
    using response_decision [of fl r ev st cmds late] by (simp only: f) blast
  show ?thesis
    using a b c
    by (simp only: f request_begin_decision response_begin_decision request_begin_sent
          response_begin_sent request_begin_registry response_begin_registry request_decision)
qed

theorem should_pause_formula_witness:
  "rules_enabled ex_rules_on
   \<and> intercept_mode ex_rules_on = ''passthrough''
   \<and> \<not> should_intercept ex_rules_on ''example.com''
   \<and> should_apply_rules ex_rules_on
   \<and> snd (snd (request_begin ex_env ex_rules_on ex_flow)) = Some 0
   \<and> map msg_type (sent ex_rules_on (fst (request_begin ex_env ex_rules_on ex_flow))) =
       [''request'', ''intercept_request'']
   \<and> pending_flows (fst (request_begin ex_env ex_rules_on ex_flow)) ''f1'' = Some 0
   \<and> snd (snd (response_begin ex_env ex_rules_on ex_flow_resp)) = Some 0
   \<and> map msg_type (sent ex_rules_on (fst (response_begin ex_env ex_rules_on ex_flow_resp))) =
       [''intercept_response'']
   \<and> response_pending (fst (response_begin ex_env ex_rules_on ex_flow_resp)) ''f1'' = Some 0
   \<and> snd (snd (request_begin ex_env init_addon ex_flow)) = None
   \<and> map msg_type (sent init_addon (fst (request_begin ex_env init_addon ex_flow))) = [''request'']"
proof -
  have r: "rules_enabled ex_rules_on" "intercept_mode ex_rules_on = ''passthrough''"
    "next_event ex_rules_on = 0"
    by (simp_all add: ex_rules_on_def init_addon_def)
  have i: "\<not> rules_enabled init_addon" "intercept_mode init_addon = ''passthrough''"
    by (simp_all add: init_addon_def)
  have n: "\<not> should_intercept ex_rules_on ''example.com''"
    by (simp add: should_intercept_def r)
  from should_pause_formula [of ex_rules_on "''example.com''" ex_env ex_flow "[]" "[]" ex_response]
       should_pause_formula [of ex_rules_on "''example.com''" ex_env ex_flow_resp "[]" "[]" ex_response]
       should_pause_formula [of init_addon "''example.com''" ex_env ex_flow "[]" "[]" ex_response]
       r i n
  show ?thesis by simp
qed

lemma ex_waiting_pending: "pending_flows ex_waiting ''f1'' = Some 0"
  by (simp add: ex_waiting_def request_begin_registry pauses_def ex_pauses)
     (simp add: ex_intercept_all_def init_addon_def)

lemma ex_waiting_resp_pending: "response_pending ex_waiting_resp ''f1'' = Some 0"
  by (simp add: ex_waiting_resp_def response_begin_registry pauses_def ex_pauses)
     (simp add: ex_intercept_all_def init_addon_def)

subsection \<open>Registering a wait\<close>

text \<open>
  Claim C2, as the code has it. Registering never fails and never tests for a wait that
  is there already: a hook that pauses creates an event, not set, and stores it under the
  flow's id in the registry of its phase, in the place of whatever was stored under that
  id. The registry is a mapping, so it holds at most one wait for each id and phase.
\<close>

theorem register_replaces:
  "(should_intercept st (req_host (flow_request fl)) \<or> should_apply_rules st \<longrightarrow>
      snd (snd (request_begin ev st fl)) = Some (next_event st)
      \<and> pending_flows (fst (request_begin ev st fl)) =
          (pending_flows st)(flow_ident fl \<mapsto> next_event st)
      \<and> \<not> events (fst (request_begin ev st fl)) (next_event st)
      \<and> snd (snd (response_begin ev st fl)) = Some (next_event st)
      \<and> response_pending (fst (response_begin ev st fl)) =
          (response_pending st)(flow_ident fl \<mapsto> next_event st)
      \<and> \<not> events (fst (response_begin ev st fl)) (next_event st))"
proof
  assume "should_intercept st (req_host (flow_request fl)) \<or> should_apply_rules st"
  then have p: "pauses st fl" by (simp add: pauses_def)
  show "snd (snd (request_begin ev st fl)) = Some (next_event st)
      \<and> pending_flows (fst (request_begin ev st fl)) =
          (pending_flows st)(flow_ident fl \<mapsto> next_event st)
      \<and> \<not> events (fst (request_begin ev st fl)) (next_event st)
      \<and> snd (snd (response_begin ev st fl)) = Some (next_event st)
      \<and> response_pending (fst (response_begin ev st fl)) =
          (response_pending st)(flow_ident fl \<mapsto> next_event st)
      \<and> \<not> events (fst (response_begin ev st fl)) (next_event st)"
    by (simp add: request_begin_paused [OF p] response_begin_paused [OF p])
qed

lemma ex_waiting_eq:
  "ex_waiting =
     ex_intercept_all
       \<lparr>outbox := [MRequest (flow_to_dict ex_env ex_flow False),
                   MInterceptRequest (flow_to_dict ex_env ex_flow False)],
        events := (\<lambda>_. False), next_event := Suc 0, pending_flows := [''f1'' \<mapsto> 0]\<rparr>"
proof -
  have p: "pauses ex_intercept_all ex_flow" by (simp add: pauses_def ex_pauses)
  show ?thesis
    by (simp add: ex_waiting_def request_begin_paused [OF p])
       (simp add: ex_intercept_all_def init_addon_def ex_flow_def fun_eq_iff)
qed

lemma ex_waiting_pauses: "should_intercept ex_waiting h"
  by (simp add: ex_waiting_eq should_intercept_def ex_intercept_all_def init_addon_def)

theorem register_replaces_witness:
  "pending_flows ex_intercept_all ''f1'' = None
   \<and> snd (snd (request_begin ex_env ex_intercept_all ex_flow)) = Some 0
   \<and> pending_flows (fst (request_begin ex_env ex_intercept_all ex_flow)) ''f1'' = Some 0
   \<and> snd (snd (response_begin ex_env ex_intercept_all ex_flow_resp)) = Some 0
   \<and> response_pending (fst (response_begin ex_env ex_intercept_all ex_flow_resp)) ''f1'' = Some 0"
proof -
  have n: "next_event ex_intercept_all = 0" "pending_flows ex_intercept_all ''f1'' = None"
    by (simp_all add: ex_intercept_all_def init_addon_def)
  have id: "flow_ident ex_flow = ''f1''" "flow_ident ex_flow_resp = ''f1''"
    by (simp_all add: ex_flow_def ex_flow_resp_def)
  from register_replaces [of ex_intercept_all ex_flow ex_env]
       register_replaces [of ex_intercept_all ex_flow_resp ex_env] ex_pauses n id
  show ?thesis by simp
qed

theorem duplicate_register_succeeds:
  "pending_flows ex_waiting ''f1'' = Some 0
   \<and> snd (snd (request_begin ex_env ex_waiting ex_flow)) = Some 1
   \<and> pending_flows (fst (request_begin ex_env ex_waiting ex_flow)) ''f1'' = Some 1"
proof -
  have p: "pauses ex_waiting ex_flow" by (simp add: pauses_def ex_waiting_pauses)
  have n: "next_event ex_waiting = 1" by (simp add: ex_waiting_eq)
  have id: "flow_ident ex_flow = ''f1''" by (simp add: ex_flow_def)
  show ?thesis
    by (simp add: request_begin_paused [OF p] n id ex_waiting_pending)
qed

subsection \<open>Edits\<close>

lemma get_all_Nil [simp]: "get_all [] k = []"
  by (simp add: get_all_def)

lemma get_all_Cons [simp]:
  "get_all ((k', x) # fs) k = (if lower k' = lower k then x # get_all fs k else get_all fs k)"
  by (simp add: get_all_def)

lemma get_all_filter_other:
  "get_all (filter (\<lambda>kv. lower (fst kv) \<noteq> lower key) fs) k =
     (if lower k = lower key then [] else get_all fs k)"
  by (induction fs) auto

lemma get_all_header_set:
  "get_all (header_set hs key v) k = (if lower k = lower key then [v] else get_all hs k)"
  by (induction hs key v rule: header_set.induct) (auto simp: get_all_filter_other)

lemma edit_value_Nil [simp]: "edit_value [] k = None"
  by (simp add: edit_value_def)

lemma edit_value_Cons:
  "edit_value ((k0, v0) # kvs) k =
     (case edit_value kvs k of
        Some v \<Rightarrow> Some v
      | None \<Rightarrow> if lower k = lower k0 then Some v0 else None)"
  by (auto simp: edit_value_def map_of_append map_add_def split: option.split)

lemma edit_value_None: "edit_value kvs k = None \<longleftrightarrow> lower k \<notin> lower ` fst ` set kvs"
  by (induction kvs) (auto simp: edit_value_Cons split: option.splits)

lemma get_all_headers_assign:
  "get_all (headers_assign hs kvs) k =
     (case edit_value kvs k of None \<Rightarrow> get_all hs k | Some v \<Rightarrow> [v])"
proof (induction kvs arbitrary: hs)
  case Nil
  show ?case by simp
next
  case (Cons kv kvs)
  obtain k0 v0 where kv: "kv = (k0, v0)" by (cases kv)
  show ?case
    by (simp add: kv Cons.IH get_all_header_set edit_value_Cons split: option.split)
qed

lemma headers_assign_other:
  "lower k \<notin> lower ` fst ` set kvs \<Longrightarrow> get_all (headers_assign hs kvs) k = get_all hs k"
  by (simp add: get_all_headers_assign edit_value_None [symmetric])

lemma headers_assign_named:
  "edit_value kvs k = Some v \<Longrightarrow> header_get (headers_assign hs kvs) k = Some v"
  by (simp add: header_get_def get_all_headers_assign)

lemma apply_request_mods_headers:
  "req_headers (fst (apply_request_mods ev mods rq)) =
     (case mod_headers mods of
        None \<Rightarrow> (case mod_body mods of
                   None \<Rightarrow> req_headers rq
                 | Some b \<Rightarrow> fst (set_text ev (req_headers rq) b))
      | Some kvs \<Rightarrow>
          headers_assign (case mod_body mods of
                            None \<Rightarrow> req_headers rq
                          | Some b \<Rightarrow> fst (set_text ev (req_headers rq) b)) kvs)"
  by (simp add: apply_request_mods_def request_set_text_def split: option.split)

lemma apply_request_mods_content:
  "req_content (fst (apply_request_mods ev mods rq)) =
     (case mod_body mods of None \<Rightarrow> req_content rq
      | Some b \<Rightarrow> Some (snd (set_text ev (req_headers rq) b)))"
  by (simp add: apply_request_mods_def request_set_text_def split: option.split)

lemma apply_response_mods_headers:
  "resp_headers (fst (apply_response_mods ev mods rs)) =
     (case mod_headers mods of
        None \<Rightarrow> (case mod_body mods of
                   None \<Rightarrow> resp_headers rs
                 | Some b \<Rightarrow> fst (set_text ev (resp_headers rs) b))
      | Some kvs \<Rightarrow>
          headers_assign (case mod_body mods of
                            None \<Rightarrow> resp_headers rs
                          | Some b \<Rightarrow> fst (set_text ev (resp_headers rs) b)) kvs)"
  by (simp add: apply_response_mods_def response_set_text_def split: option.split)

lemma apply_response_mods_content:
  "resp_content (fst (apply_response_mods ev mods rs)) =
     (case mod_body mods of None \<Rightarrow> resp_content rs
      | Some b \<Rightarrow> Some (snd (set_text ev (resp_headers rs) b)))"
  by (simp add: apply_response_mods_def response_set_text_def split: option.split)

lemma apply_response_mods_status:
  "resp_status_code (fst (apply_response_mods ev mods rs)) =
     (case mod_status_code mods of None \<Rightarrow> resp_status_code rs | Some c \<Rightarrow> c)"
  by (simp add: apply_response_mods_def response_set_text_def split: option.split)

lemma request_resume_request:
  "flow_modifications st (flow_ident fl) = Some mods \<Longrightarrow> mod_drop mods \<noteq> Some True \<Longrightarrow>
   flow_request (snd (request_resume ev st fl d)) =
     fst (apply_request_mods ev mods (flow_request fl))"
  by (simp add: request_resume_def Let_def split_def)

lemma response_resume_response:
  "response_modifications st (flow_ident fl) = Some mods \<Longrightarrow>
   flow_response (fst (snd (response_resume ev st fl rs))) =
     Some (fst (apply_response_mods ev mods rs))"
  by (simp add: response_resume_def Let_def split_def)

text \<open>
  Claim C6. Applying a Modification Set. The header edit assigns each of its items into
  the headers the message has at that point: a name the edit does not mention (in any
  spelling) keeps all its values, a name it mentions gets the single value of its last
  item, so the edit is merged into the headers. A body edit goes through the engine's
  \<^verbatim>\<open>set_text\<close>: the new content is what \<^verbatim>\<open>set_text\<close> makes of the new text, whatever
  the content was, and the headers are the ones \<^verbatim>\<open>set_text\<close> leaves (it writes
  \<^verbatim>\<open>content-length\<close>); the body edit comes first, so these are the headers the header edit
  is merged into. A status edit makes the status the new code. The request hook applies
  the body and header edits to the request of the flow, the response hook the body, status
  and header edits to its response.
\<close>

theorem edits_merge_headers_replace_body:
  "(mod_headers mods = Some kvs \<longrightarrow>
      (\<forall>k. lower k \<notin> lower ` fst ` set kvs \<longrightarrow>
            get_all (req_headers (fst (apply_request_mods ev mods rq))) k =
              get_all (case mod_body mods of
                         None \<Rightarrow> req_headers rq
                       | Some b \<Rightarrow> fst (set_text ev (req_headers rq) b)) k)
      \<and> (\<forall>k v. edit_value kvs k = Some v \<longrightarrow>
            header_get (req_headers (fst (apply_request_mods ev mods rq))) k = Some v)
      \<and> (\<forall>k. lower k \<notin> lower ` fst ` set kvs \<longrightarrow>
            get_all (resp_headers (fst (apply_response_mods ev mods rs))) k =
              get_all (case mod_body mods of
                         None \<Rightarrow> resp_headers rs
                       | Some b \<Rightarrow> fst (set_text ev (resp_headers rs) b)) k)
      \<and> (\<forall>k v. edit_value kvs k = Some v \<longrightarrow>
            header_get (resp_headers (fst (apply_response_mods ev mods rs))) k = Some v))
   \<and> (mod_body mods = Some b \<longrightarrow>
        req_content (fst (apply_request_mods ev mods rq)) =
          Some (snd (set_text ev (req_headers rq) b))
        \<and> resp_content (fst (apply_response_mods ev mods rs)) =
          Some (snd (set_text ev (resp_headers rs) b)))
   \<and> (mod_status_code mods = Some c \<longrightarrow>
        resp_status_code (fst (apply_response_mods ev mods rs)) = c)
   \<and> (flow_modifications st (flow_ident fl) = Some mods \<and> mod_drop mods \<noteq> Some True \<longrightarrow>
        flow_request (snd (request_resume ev st fl d)) =
          fst (apply_request_mods ev mods (flow_request fl)))
   \<and> (response_modifications st (flow_ident fl) = Some mods \<longrightarrow>
        flow_response (fst (snd (response_resume ev st fl rs))) =
          Some (fst (apply_response_mods ev mods rs)))"
proof -
  have h: "mod_headers mods = Some kvs \<longrightarrow>
      (\<forall>k. lower k \<notin> lower ` fst ` set kvs \<longrightarrow>
            get_all (req_headers (fst (apply_request_mods ev mods rq))) k =
              get_all (case mod_body mods of
                         None \<Rightarrow> req_headers rq
                       | Some b \<Rightarrow> fst (set_text ev (req_headers rq) b)) k)
      \<and> (\<forall>k v. edit_value kvs k = Some v \<longrightarrow>
            header_get (req_headers (fst (apply_request_mods ev mods rq))) k = Some v)
      \<and> (\<forall>k. lower k \<notin> lower ` fst ` set kvs \<longrightarrow>
            get_all (resp_headers (fst (apply_response_mods ev mods rs))) k =
              get_all (case mod_body mods of
                         None \<Rightarrow> resp_headers rs
                       | Some b \<Rightarrow> fst (set_text ev (resp_headers rs) b)) k)
      \<and> (\<forall>k v. edit_value kvs k = Some v \<longrightarrow>
            header_get (resp_headers (fst (apply_response_mods ev mods rs))) k = Some v)"
    by (simp add: apply_request_mods_headers apply_response_mods_headers
          headers_assign_other headers_assign_named)
  have b: "mod_body mods = Some b \<longrightarrow>
        req_content (fst (apply_request_mods ev mods rq)) =
          Some (snd (set_text ev (req_headers rq) b))
        \<and> resp_content (fst (apply_response_mods ev mods rs)) =
          Some (snd (set_text ev (resp_headers rs) b))"
    by (simp add: apply_request_mods_content apply_response_mods_content)
  have s: "mod_status_code mods = Some c \<longrightarrow>
        resp_status_code (fst (apply_response_mods ev mods rs)) = c"
    by (simp add: apply_response_mods_status)
  have q: "flow_modifications st (flow_ident fl) = Some mods \<and> mod_drop mods \<noteq> Some True \<longrightarrow>
        flow_request (snd (request_resume ev st fl d)) =
          fst (apply_request_mods ev mods (flow_request fl))"
    using request_resume_request by blast
  have r: "response_modifications st (flow_ident fl) = Some mods \<longrightarrow>
        flow_response (fst (snd (response_resume ev st fl rs))) =
          Some (fst (apply_response_mods ev mods rs))"
    using response_resume_response by blast
  from h b s q r show ?thesis by blast
qed

lemma ex_released_mods: "flow_modifications ex_released (flow_ident ex_flow) = Some ex_mods"
  by (simp add: ex_released_def ex_waiting_pending set_event_def mods_or_empty_def)

lemma ex_released_resp_mods:
  "response_modifications ex_released_resp (flow_ident ex_flow_resp) = Some ex_mods"
  by (simp add: ex_released_resp_def ex_waiting_resp_pending set_event_def mods_or_empty_def)

lemma ex_set_text_request:
  "set_text ex_env (req_headers ex_request) ''new'' =
     ([(''accept'', ''*/*''), (''content-length'', ''3'')], ''new'')"
  by code_simp

lemma ex_set_text_response:
  "set_text ex_env (resp_headers ex_response) ''new'' =
     ([(''server'', ''x''), (''Content-Length'', ''3'')], ''new'')"
  by code_simp

lemma ex_edit_values:
  "edit_value [(''x-test'', ''1''), (''Accept'', ''text/html'')] ''accept'' = Some ''text/html''"
  "edit_value [(''x-test'', ''1''), (''Accept'', ''text/html'')] ''x-test'' = Some ''1''"
  "lower ''content-length'' \<notin> lower ` fst ` set [(''x-test'', ''1''), (''Accept'', ''text/html'')]"
  "lower ''server'' \<notin> lower ` fst ` set [(''x-test'', ''1''), (''Accept'', ''text/html'')]"
  by code_simp+

lemma ex_get_all:
  "get_all [(''accept'', ''*/*''), (''content-length'', ''3'')] ''content-length'' = [''3'']"
  "get_all [(''server'', ''x''), (''Content-Length'', ''3'')] ''content-length'' = [''3'']"
  "get_all [(''server'', ''x''), (''Content-Length'', ''3'')] ''server'' = [''x'']"
  by code_simp+

theorem edits_merge_headers_replace_body_witness:
  "header_get (req_headers (fst (apply_request_mods ex_env ex_mods ex_request))) ''accept'' =
     Some ''text/html''
   \<and> header_get (req_headers (fst (apply_request_mods ex_env ex_mods ex_request))) ''x-test'' =
       Some ''1''
   \<and> get_all (req_headers (fst (apply_request_mods ex_env ex_mods ex_request))) ''content-length'' =
       [''3'']
   \<and> get_all (resp_headers (fst (apply_response_mods ex_env ex_mods ex_response))) ''server'' =
       [''x'']
   \<and> get_all (resp_headers (fst (apply_response_mods ex_env ex_mods ex_response)))
         ''content-length'' = [''3'']
   \<and> req_content (fst (apply_request_mods ex_env ex_mods ex_request)) = Some ''new''
   \<and> resp_content (fst (apply_response_mods ex_env ex_mods ex_response)) = Some ''new''
   \<and> resp_status_code (fst (apply_response_mods ex_env ex_mods ex_response)) = 404
   \<and> flow_request (snd (request_resume ex_env ex_released ex_flow (flow_to_dict ex_env ex_flow False))) =
       fst (apply_request_mods ex_env ex_mods ex_request)
   \<and> flow_response (fst (snd (response_resume ex_env ex_released_resp ex_flow_resp ex_response))) =
       Some (fst (apply_response_mods ex_env ex_mods ex_response))"
proof -
  let ?kvs = "[(''x-test'', ''1''), (''Accept'', ''text/html'')]"
  have hs: "mod_headers ex_mods = Some ?kvs" by (simp add: ex_mods_def)
  have bd: "mod_body ex_mods = Some ''new''" by (simp add: ex_mods_def)
  have sc: "mod_status_code ex_mods = Some 404" by (simp add: ex_mods_def)
  have dr: "mod_drop ex_mods \<noteq> Some True" by (simp add: ex_mods_def)
  have fr: "flow_request ex_flow = ex_request" by (simp add: ex_flow_def)
  note t1 = edits_merge_headers_replace_body
     [of ex_mods ?kvs ex_env ex_request ex_response "''new''" 404
         ex_released ex_flow "flow_to_dict ex_env ex_flow False"]
  note t2 = edits_merge_headers_replace_body
     [of ex_mods ?kvs ex_env ex_request ex_response "''new''" 404
         ex_released_resp ex_flow_resp "flow_to_dict ex_env ex_flow False"]
  have a: "header_get (req_headers (fst (apply_request_mods ex_env ex_mods ex_request))) ''accept'' =
           Some ''text/html''"
    using t1 hs ex_edit_values(1) by blast
  have b: "header_get (req_headers (fst (apply_request_mods ex_env ex_mods ex_request))) ''x-test'' =
           Some ''1''"
    using t1 hs ex_edit_values(2) by blast
  have c0: "get_all (req_headers (fst (apply_request_mods ex_env ex_mods ex_request))) ''content-length'' =
           get_all (case mod_body ex_mods of
                      None \<Rightarrow> req_headers ex_request
                    | Some b \<Rightarrow> fst (set_text ex_env (req_headers ex_request) b)) ''content-length''"
    using t1 hs ex_edit_values(3) by blast
  have c: "get_all (req_headers (fst (apply_request_mods ex_env ex_mods ex_request))) ''content-length'' =
           [''3'']"
    by (simp only: c0 bd option.case ex_set_text_request fst_conv ex_get_all)
  have d0: "get_all (resp_headers (fst (apply_response_mods ex_env ex_mods ex_response))) ''server'' =
           get_all (case mod_body ex_mods of
                      None \<Rightarrow> resp_headers ex_response
                    | Some b \<Rightarrow> fst (set_text ex_env (resp_headers ex_response) b)) ''server''"
    using t1 hs ex_edit_values(4) by blast
  have d: "get_all (resp_headers (fst (apply_response_mods ex_env ex_mods ex_response))) ''server'' =
           [''x'']"
    by (simp only: d0 bd option.case ex_set_text_response fst_conv ex_get_all)
  have e0: "get_all (resp_headers (fst (apply_response_mods ex_env ex_mods ex_response)))
              ''content-length'' =
           get_all (case mod_body ex_mods of
                      None \<Rightarrow> resp_headers ex_response
                    | Some b \<Rightarrow> fst (set_text ex_env (resp_headers ex_response) b))
              ''content-length''"
    using t1 hs ex_edit_values(3) by blast
  have e: "get_all (resp_headers (fst (apply_response_mods ex_env ex_mods ex_response)))
              ''content-length'' = [''3'']"
    by (simp only: e0 bd option.case ex_set_text_response fst_conv ex_get_all)
  have f: "req_content (fst (apply_request_mods ex_env ex_mods ex_request)) = Some ''new''"
    using t1 bd by (simp only: ex_set_text_request snd_conv)
  have g: "resp_content (fst (apply_response_mods ex_env ex_mods ex_response)) = Some ''new''"
    using t1 bd by (simp only: ex_set_text_response snd_conv)
  have h: "resp_status_code (fst (apply_response_mods ex_env ex_mods ex_response)) = 404"
    using t1 sc by blast
  have i: "flow_request (snd (request_resume ex_env ex_released ex_flow (flow_to_dict ex_env ex_flow False))) =
       fst (apply_request_mods ex_env ex_mods ex_request)"
    using t1 ex_released_mods dr fr by metis
  have j: "flow_response (fst (snd (response_resume ex_env ex_released_resp ex_flow_resp ex_response))) =
       Some (fst (apply_response_mods ex_env ex_mods ex_response))"
    using t2 ex_released_resp_mods by metis
  from a b c d e f g h i j show ?thesis by blast
qed

subsection \<open>What a hook does when it runs again\<close>

lemma apply_request_mods_flag: "snd (apply_request_mods ev mods rq) = edits_request mods"
  by (simp add: apply_request_mods_def edits_request_def split: option.split)

lemma apply_response_mods_flag: "snd (apply_response_mods ev mods rs) = edits_response mods"
  by (simp add: apply_response_mods_def edits_response_def split: option.split)

lemma apply_request_mods_none: "\<not> edits_request mods \<Longrightarrow> fst (apply_request_mods ev mods rq) = rq"
  by (simp add: apply_request_mods_def edits_request_def)

lemma apply_response_mods_none:
  "\<not> edits_response mods \<Longrightarrow> fst (apply_response_mods ev mods rs) = rs"
  by (simp add: apply_response_mods_def edits_response_def)

lemma request_resumed_facts [simp]:
  "pauses st fl \<Longrightarrow>
   outbox (request_resumed ev st fl cmds) =
     outbox st @ [MRequest (flow_to_dict ev fl False), MInterceptRequest (flow_to_dict ev fl False)]"
  "pauses st fl \<Longrightarrow>
   pending_flows (request_resumed ev st fl cmds) (flow_ident fl) = Some (next_event st)"
  "pauses st fl \<Longrightarrow> next_event (request_resumed ev st fl cmds) = Suc (next_event st)"
  by (simp_all add: request_resumed_def request_begin_paused)

lemma response_resumed_facts [simp]:
  "pauses st fl \<Longrightarrow>
   outbox (response_resumed ev st fl cmds) =
     outbox st @ [MInterceptResponse (response_snapshot ev st fl)]"
  "pauses st fl \<Longrightarrow>
   response_pending (response_resumed ev st fl cmds) (flow_ident fl) = Some (next_event st)"
  "pauses st fl \<Longrightarrow>
   streaming_flows (response_resumed ev st fl cmds) = streaming_flows st - {flow_ident fl}"
  by (simp_all add: response_resumed_def response_begin_paused)

lemma request_resume_none:
  "flow_modifications S (flow_ident fl) = None \<Longrightarrow>
   request_resume ev S fl d = (S\<lparr>pending_flows := (pending_flows S)(flow_ident fl := None)\<rparr>, fl)"
  by (simp add: request_resume_def Let_def)

lemma request_resume_drop:
  "flow_modifications S (flow_ident fl) = Some mods \<Longrightarrow> mod_drop mods = Some True \<Longrightarrow>
   request_resume ev S fl d =
     (S\<lparr>pending_flows := (pending_flows S)(flow_ident fl := None),
        flow_modifications := (flow_modifications S)(flow_ident fl := None)\<rparr>,
      fl\<lparr>flow_killed := True\<rparr>)"
  by (simp add: request_resume_def Let_def)

lemma request_resume_edit:
  "flow_modifications S (flow_ident fl) = Some mods \<Longrightarrow> mod_drop mods \<noteq> Some True \<Longrightarrow>
   request_resume ev S fl d =
     (if edits_request mods
      then send_to_backend
             (S\<lparr>pending_flows := (pending_flows S)(flow_ident fl := None),
                flow_modifications := (flow_modifications S)(flow_ident fl := None)\<rparr>)
             (MRequestModified (flow_ident fl) (fd_request d)
                (fd_request (flow_to_dict ev
                   (fl\<lparr>flow_request := fst (apply_request_mods ev mods (flow_request fl))\<rparr>) False)))
      else S\<lparr>pending_flows := (pending_flows S)(flow_ident fl := None),
             flow_modifications := (flow_modifications S)(flow_ident fl := None)\<rparr>,
      fl\<lparr>flow_request := fst (apply_request_mods ev mods (flow_request fl))\<rparr>)"
  using apply_request_mods_flag [of ev mods "flow_request fl"]
  by (simp add: request_resume_def Let_def split_def)

lemma response_resume_none:
  "response_modifications S (flow_ident fl) = None \<Longrightarrow>
   response_resume ev S fl r =
     (S\<lparr>response_pending := (response_pending S)(flow_ident fl := None)\<rparr>, fl, False)"
  by (simp add: response_resume_def Let_def)

lemma response_resume_edit:
  "response_modifications S (flow_ident fl) = Some mods \<Longrightarrow>
   response_resume ev S fl r =
     (S\<lparr>response_pending := (response_pending S)(flow_ident fl := None),
        response_modifications := (response_modifications S)(flow_ident fl := None)\<rparr>,
      fl\<lparr>flow_response := Some (fst (apply_response_mods ev mods r))\<rparr>,
      edits_response mods)"
  using apply_response_mods_flag [of ev mods r]
  by (simp add: response_resume_def Let_def split_def)

lemma request_paused':
  assumes "pauses st fl"
  shows "request ev st fl cmds late =
     (fst (request_resume ev (request_resumed ev st fl (cmds @ late)) fl (flow_to_dict ev fl False)),
      snd (request_resume ev (request_resumed ev st fl (cmds @ late)) fl (flow_to_dict ev fl False)),
      Some (if events (request_resumed ev st fl cmds) (next_event st) then Released else TimedOut))"
  by (simp only: request_paused [OF assms] request_resumed_def)

lemma response_paused':
  assumes "pauses st fl" and "flow_response fl = Some r"
  shows "response ev st fl cmds late =
     Inr (response_finish ev
            (fst (response_resume ev (response_resumed ev st fl (cmds @ late)) fl r))
            (fst (snd (response_resume ev (response_resumed ev st fl (cmds @ late)) fl r)))
            (response_snapshot ev st fl)
            (snd (snd (response_resume ev (response_resumed ev st fl (cmds @ late)) fl r))),
          fst (snd (response_resume ev (response_resumed ev st fl (cmds @ late)) fl r)),
          Some (if events (response_resumed ev st fl cmds) (next_event st)
                then Released else TimedOut))"
  by (simp only: response_paused [OF assms] response_resumed_def)

lemma response_finish_eq:
  "streaming_flows S = streaming_flows st - {flow_ident fl} \<Longrightarrow> flow_ident fl' = flow_ident fl \<Longrightarrow>
   response_finish ev S fl' (response_snapshot ev st fl) b =
     send_to_backend S
       (MResponse (if b
                   then (response_snapshot ev st fl')
                          \<lparr>fd_original_response := fd_response (response_snapshot ev st fl),
                           fd_response_modified := True\<rparr>
                   else response_snapshot ev st fl'))"
  by (simp add: response_finish_def response_snapshot_def Let_def flow_to_dict_def)

subsection \<open>Order and content of the messages\<close>

lemma request_sent_eq:
  "sent st (fst (request ev st fl cmds late)) =
     MRequest (flow_to_dict ev fl False) #
       (if pauses st fl
        then MInterceptRequest (flow_to_dict ev fl False) #
               (if request_edited ev st fl (cmds @ late)
                then [MRequestModified (flow_ident fl) (fd_request (flow_to_dict ev fl False))
                        (fd_request (flow_to_dict ev (fst (snd (request ev st fl cmds late)))
                                       False))]
                else [])
        else [])"
proof (cases "pauses st fl")
  case False
  then show ?thesis by (simp add: request_not_paused)
next
  case True
  let ?S = "request_resumed ev st fl (cmds @ late)"
  show ?thesis
  proof (cases "flow_modifications ?S (flow_ident fl)")
    case None
    then show ?thesis using True
      by (simp add: request_paused' request_resume_none request_edited_def)
  next
    case (Some mods)
    show ?thesis
    proof (cases "mod_drop mods = Some True")
      case d: True
      show ?thesis using True Some d
        by (simp add: request_paused' request_resume_drop [OF Some d] request_edited_def)
    next
      case d: False
      show ?thesis using True Some d
        by (simp add: request_paused' request_resume_edit [OF Some d] request_edited_def
              send_to_backend_def)
    qed
  qed
qed

lemma response_flow_eq:
  assumes "flow_response fl = Some r"
  shows "response_flow ev st fl cmds late =
     (if pauses st fl
      then (case response_modifications (response_resumed ev st fl (cmds @ late)) (flow_ident fl) of
              None \<Rightarrow> fl
            | Some mods \<Rightarrow> fl\<lparr>flow_response := Some (fst (apply_response_mods ev mods r))\<rparr>)
      else fl)"
proof (cases "pauses st fl")
  case False
  then show ?thesis using assms by (simp add: response_flow_def response_not_paused)
next
  case True
  show ?thesis
  proof (cases "response_modifications (response_resumed ev st fl (cmds @ late)) (flow_ident fl)")
    case None
    then show ?thesis using True
      by (simp add: response_flow_def response_paused' [OF True assms] response_resume_none)
  next
    case (Some mods)
    then show ?thesis using True
      by (simp add: response_flow_def response_paused' [OF True assms]
            response_resume_edit [OF Some])
  qed
qed

lemma response_flow_ident:
  "flow_response fl = Some r \<Longrightarrow> flow_ident (response_flow ev st fl cmds late) = flow_ident fl"
  by (simp add: response_flow_eq split: option.split)

lemma response_sent_eq:
  assumes "flow_response fl = Some r"
  shows "response_sent ev st fl cmds late =
     (if pauses st fl then [MInterceptResponse (response_snapshot ev st fl)] else []) @
     [MResponse
        (if response_edited ev st fl (cmds @ late)
         then (response_snapshot ev st (response_flow ev st fl cmds late))
                \<lparr>fd_original_response := fd_response (response_snapshot ev st fl),
                 fd_response_modified := True\<rparr>
         else response_snapshot ev st (response_flow ev st fl cmds late))]"
proof (cases "pauses st fl")
  case False
  have "response_finish ev (st\<lparr>streaming_flows := streaming_flows st - {flow_ident fl}\<rparr>) fl
          (response_snapshot ev st fl) False =
        send_to_backend (st\<lparr>streaming_flows := streaming_flows st - {flow_ident fl}\<rparr>)
          (MResponse (response_snapshot ev st fl))"
    by (simp add: response_finish_eq)
  then show ?thesis using False assms
    by (simp add: response_sent_def response_flow_def response_not_paused response_edited_def
          send_to_backend_def sent_def)
next
  case True
  let ?S = "response_resumed ev st fl (cmds @ late)"
  show ?thesis
  proof (cases "response_modifications ?S (flow_ident fl)")
    case None
    let ?S' = "?S\<lparr>response_pending := (response_pending ?S)(flow_ident fl := None)\<rparr>"
    have f: "response_finish ev ?S' fl (response_snapshot ev st fl) False =
             send_to_backend ?S' (MResponse (response_snapshot ev st fl))"
      using True by (simp add: response_finish_eq)
    show ?thesis using True None
      by (simp add: response_sent_def response_flow_def response_paused' [OF True assms]
            response_resume_none f response_edited_def send_to_backend_def)
  next
    case (Some mods)
    let ?S' = "?S\<lparr>response_pending := (response_pending ?S)(flow_ident fl := None),
                   response_modifications := (response_modifications ?S)(flow_ident fl := None)\<rparr>"
    let ?fl' = "fl\<lparr>flow_response := Some (fst (apply_response_mods ev mods r))\<rparr>"
    have f: "response_finish ev ?S' ?fl' (response_snapshot ev st fl) (edits_response mods) =
             send_to_backend ?S'
               (MResponse (if edits_response mods
                           then (response_snapshot ev st ?fl')
                                  \<lparr>fd_original_response := fd_response (response_snapshot ev st fl),
                                   fd_response_modified := True\<rparr>
                           else response_snapshot ev st ?fl'))"
      using True by (simp add: response_finish_eq)
    show ?thesis using True Some
      by (simp add: response_sent_def response_flow_def response_paused' [OF True assms]
            response_resume_edit [OF Some] f response_edited_def send_to_backend_def)
  qed
qed

text \<open>
  Claim C7, as the code has it. Each hook sends exactly one observed message. The request
  hook sends its \<^verbatim>\<open>request\<close> message first, with the snapshot taken on entry; the pause
  message \<^verbatim>\<open>intercept_request\<close> follows it, and a \<^verbatim>\<open>request_modified\<close> message when the
  hook has edited the request. The response hook sends its \<^verbatim>\<open>response\<close> message last:
  when it pauses, the pause message \<^verbatim>\<open>intercept_response\<close>, with the snapshot taken on
  entry, comes first, and the observed message follows the wait; it carries the snapshot
  of the flow as the hook leaves it, after the stored Modification Set has been applied,
  and, when that has edited the response, the response of the first snapshot as
  \<^verbatim>\<open>original_response\<close>.
\<close>

theorem observed_message_once_per_phase:
  "sent st (fst (request ev st fl cmds late)) =
     MRequest (flow_to_dict ev fl False) #
       (if should_intercept st (req_host (flow_request fl)) \<or> should_apply_rules st
        then MInterceptRequest (flow_to_dict ev fl False) #
               (if request_edited ev st fl (cmds @ late)
                then [MRequestModified (flow_ident fl) (fd_request (flow_to_dict ev fl False))
                        (fd_request (flow_to_dict ev (fst (snd (request ev st fl cmds late)))
                                       False))]
                else [])
        else [])
   \<and> (flow_response fl = Some r \<longrightarrow>
        response_sent ev st fl cmds late =
          (if should_intercept st (req_host (flow_request fl)) \<or> should_apply_rules st
           then [MInterceptResponse (response_snapshot ev st fl)] else []) @
          [MResponse
             (if response_edited ev st fl (cmds @ late)
              then (response_snapshot ev st (response_flow ev st fl cmds late))
                     \<lparr>fd_original_response := fd_response (response_snapshot ev st fl),
                      fd_response_modified := True\<rparr>
              else response_snapshot ev st (response_flow ev st fl cmds late))]
        \<and> response_flow ev st fl cmds late =
            (if should_intercept st (req_host (flow_request fl)) \<or> should_apply_rules st
             then (case response_modifications (response_resumed ev st fl (cmds @ late))
                          (flow_ident fl) of
                     None \<Rightarrow> fl
                   | Some mods \<Rightarrow>
                       fl\<lparr>flow_response := Some (fst (apply_response_mods ev mods r))\<rparr>)
             else fl))"
proof -
  note p = pauses_def [of st fl, symmetric]
  have a: "sent st (fst (request ev st fl cmds late)) =
     MRequest (flow_to_dict ev fl False) #
       (if should_intercept st (req_host (flow_request fl)) \<or> should_apply_rules st
        then MInterceptRequest (flow_to_dict ev fl False) #
               (if request_edited ev st fl (cmds @ late)
                then [MRequestModified (flow_ident fl) (fd_request (flow_to_dict ev fl False))
                        (fd_request (flow_to_dict ev (fst (snd (request ev st fl cmds late)))
                                       False))]
                else [])
        else [])"
    unfolding p by (rule request_sent_eq)
  have b: "flow_response fl = Some r \<Longrightarrow>
        response_sent ev st fl cmds late =
          (if should_intercept st (req_host (flow_request fl)) \<or> should_apply_rules st
           then [MInterceptResponse (response_snapshot ev st fl)] else []) @
          [MResponse
             (if response_edited ev st fl (cmds @ late)
              then (response_snapshot ev st (response_flow ev st fl cmds late))
                     \<lparr>fd_original_response := fd_response (response_snapshot ev st fl),
                      fd_response_modified := True\<rparr>
              else response_snapshot ev st (response_flow ev st fl cmds late))]"
    unfolding p by (rule response_sent_eq)
  have c: "flow_response fl = Some r \<Longrightarrow>
        response_flow ev st fl cmds late =
            (if should_intercept st (req_host (flow_request fl)) \<or> should_apply_rules st
             then (case response_modifications (response_resumed ev st fl (cmds @ late))
                          (flow_ident fl) of
                     None \<Rightarrow> fl
                   | Some mods \<Rightarrow>
                       fl\<lparr>flow_response := Some (fst (apply_response_mods ev mods r))\<rparr>)
             else fl)"
    unfolding p by (rule response_flow_eq)
  from a b c show ?thesis by blast
qed

lemma ex_pauses_flow [simp]: "pauses ex_intercept_all fl"
  by (simp add: pauses_def ex_pauses)

lemma ex_request_resumed:
  "request_resumed ex_env ex_intercept_all ex_flow [ForwardModified ''f1'' (Some ex_mods)] =
     ex_released"
  by (simp add: request_resumed_def ex_released_def ex_waiting_def)

lemma ex_response_resumed:
  "response_resumed ex_env ex_intercept_all ex_flow_resp
     [ForwardResponseModified ''f1'' (Some ex_mods)] = ex_released_resp"
  by (simp add: response_resumed_def ex_released_resp_def ex_waiting_resp_def)

lemma ex_mods_edit [simp]:
  "edits_request ex_mods" "edits_response ex_mods" "mod_drop ex_mods \<noteq> Some True"
  by (simp_all add: edits_request_def edits_response_def ex_mods_def)

lemma ex_request_edited:
  "request_edited ex_env ex_intercept_all ex_flow ([ForwardModified ''f1'' (Some ex_mods)] @ [])"
  using ex_released_mods
  by (simp add: request_edited_def ex_request_resumed del: ex_flow_ident)

lemma ex_response_edited:
  "response_edited ex_env ex_intercept_all ex_flow_resp
     ([ForwardResponseModified ''f1'' (Some ex_mods)] @ [])"
  using ex_released_resp_mods
  by (simp add: response_edited_def ex_response_resumed del: ex_flow_ident)

lemma ex_status_codes:
  "map_option rs_status_code (fd_response (response_snapshot ex_env ex_intercept_all ex_flow_resp)) =
     Some 200"
  "map_option rs_status_code
     (fd_response (response_snapshot ex_env ex_intercept_all ex_flow_resp_edited)) = Some 404"
  by (simp_all add: response_snapshot_def flow_to_dict_def Let_def response_to_dict_def
        ex_flow_resp_edited_def ex_flow_resp_def apply_response_mods_status ex_mods_def
        ex_response_def)

theorem observed_message_once_per_phase_witness:
  "flow_response ex_flow_resp = Some ex_response
   \<and> map msg_type
        (sent ex_intercept_all
           (fst (request ex_env ex_intercept_all ex_flow [ForwardModified ''f1'' (Some ex_mods)] []))) =
       [''request'', ''intercept_request'', ''request_modified'']
   \<and> response_sent ex_env ex_intercept_all ex_flow_resp
         [ForwardResponseModified ''f1'' (Some ex_mods)] [] =
       [MInterceptResponse (response_snapshot ex_env ex_intercept_all ex_flow_resp),
        MResponse ((response_snapshot ex_env ex_intercept_all ex_flow_resp_edited)
                     \<lparr>fd_original_response :=
                        fd_response (response_snapshot ex_env ex_intercept_all ex_flow_resp),
                      fd_response_modified := True\<rparr>)]
   \<and> response_flow ex_env ex_intercept_all ex_flow_resp
         [ForwardResponseModified ''f1'' (Some ex_mods)] [] = ex_flow_resp_edited
   \<and> map_option rs_status_code
        (fd_response (response_snapshot ex_env ex_intercept_all ex_flow_resp)) = Some 200
   \<and> map_option rs_status_code
        (fd_response (response_snapshot ex_env ex_intercept_all ex_flow_resp_edited)) = Some 404"
proof -
  note t1 = observed_message_once_per_phase
     [of ex_intercept_all ex_env ex_flow "[ForwardModified ''f1'' (Some ex_mods)]" "[]" ex_response]
  note t2 = observed_message_once_per_phase
     [of ex_intercept_all ex_env ex_flow_resp "[ForwardResponseModified ''f1'' (Some ex_mods)]" "[]"
         ex_response]
  have p: "should_intercept ex_intercept_all h" for h by (rule ex_pauses)
  have m: "response_modifications
             (response_resumed ex_env ex_intercept_all ex_flow_resp
                ([ForwardResponseModified ''f1'' (Some ex_mods)] @ [])) (flow_ident ex_flow_resp) =
           Some ex_mods"
    using ex_released_resp_mods by (simp add: ex_response_resumed del: ex_flow_ident)
  have a: "map msg_type
        (sent ex_intercept_all
           (fst (request ex_env ex_intercept_all ex_flow [ForwardModified ''f1'' (Some ex_mods)] []))) =
       [''request'', ''intercept_request'', ''request_modified'']"
    using t1 ex_request_edited p by simp
  have fl: "response_flow ex_env ex_intercept_all ex_flow_resp
         [ForwardResponseModified ''f1'' (Some ex_mods)] [] = ex_flow_resp_edited"
    using t2 p m by (simp add: ex_flow_resp_edited_def)
  have b: "response_sent ex_env ex_intercept_all ex_flow_resp
         [ForwardResponseModified ''f1'' (Some ex_mods)] [] =
       [MInterceptResponse (response_snapshot ex_env ex_intercept_all ex_flow_resp),
        MResponse ((response_snapshot ex_env ex_intercept_all ex_flow_resp_edited)
                     \<lparr>fd_original_response :=
                        fd_response (response_snapshot ex_env ex_intercept_all ex_flow_resp),
                      fd_response_modified := True\<rparr>)]"
    using t2 p ex_response_edited fl by simp
  from a b fl ex_status_codes show ?thesis by simp
qed

lemma response_types_sent:
  "flow_response fl = Some r \<Longrightarrow>
   response_types ev st fl cmds late = Inr (map msg_type (response_sent ev st fl cmds late))"
  by (cases "pauses st fl")
     (simp_all add: response_types_def response_sent_def response_paused' response_not_paused)

theorem response_observed_after_pause:
  "response_types ex_env ex_intercept_all ex_flow_resp [] [] =
     Inr [''intercept_response'', ''response'']"
  by (simp add: response_types_sent [of ex_flow_resp ex_response]
        response_sent_eq [of ex_flow_resp ex_response])

subsection \<open>Drop\<close>

lemma cmd_keeps_drop:
  "pending_flows st f = Some e \<Longrightarrow> flow_modifications st f = Some drop_modifications \<Longrightarrow>
   \<not> forward_modified_for f c \<Longrightarrow>
   flow_modifications (process_backend_command st c) f = Some drop_modifications"
  by (cases c) (auto simp: set_event_def split: option.splits)

lemma run_keeps_drop:
  "pending_flows st f = Some e \<Longrightarrow> flow_modifications st f = Some drop_modifications \<Longrightarrow>
   no_forward_modified f cmds \<Longrightarrow>
   flow_modifications (run_commands st cmds) f = Some drop_modifications"
proof (induction cmds arbitrary: st)
  case Nil
  then show ?case by simp
next
  case (Cons c cs)
  have "flow_modifications (process_backend_command st c) f = Some drop_modifications"
    using Cons.prems by (simp add: cmd_keeps_drop no_forward_modified_def)
  moreover have "pending_flows (process_backend_command st c) f = Some e"
    using Cons.prems(1) by simp
  moreover have "no_forward_modified f cs"
    using Cons.prems(3) by (simp add: no_forward_modified_def)
  ultimately show ?case using Cons.IH by simp
qed

lemma drop_stores:
  "pending_flows st f = Some e \<Longrightarrow>
   flow_modifications (process_backend_command st (Drop f)) f = Some drop_modifications"
  by (simp add: set_event_def)

lemma request_drop:
  assumes p: "pauses st fl"
    and c: "cmds @ late = pre @ Drop (flow_ident fl) # post"
    and n: "no_forward_modified (flow_ident fl) post"
  shows "fst (snd (request ev st fl cmds late)) = fl\<lparr>flow_killed := True\<rparr>"
    and "sent st (fst (request ev st fl cmds late)) =
           [MRequest (flow_to_dict ev fl False), MInterceptRequest (flow_to_dict ev fl False)]"
proof -
  let ?f = "flow_ident fl"
  let ?R = "request_resumed ev st fl pre"
  let ?S = "request_resumed ev st fl (cmds @ late)"
  have pf: "pending_flows ?R ?f = Some (next_event st)" using p by simp
  have d: "flow_modifications (process_backend_command ?R (Drop ?f)) ?f = Some drop_modifications"
    using pf by (rule drop_stores)
  have s1: "?S = run_commands (fst (request_begin ev st fl)) (pre @ Drop ?f # post)"
    by (simp only: request_resumed_def c)
  have s2: "run_commands (fst (request_begin ev st fl)) (pre @ Drop ?f # post) =
            run_commands (process_backend_command ?R (Drop ?f)) post"
    by (simp only: run_commands_append run_commands_Cons request_resumed_def)
  have pf': "pending_flows (process_backend_command ?R (Drop ?f)) ?f = Some (next_event st)"
    using pf by (simp only: cmd_pending_flows)
  have m: "flow_modifications ?S ?f = Some drop_modifications"
    unfolding s1 s2 using pf' d n by (rule run_keeps_drop)
  have dd: "mod_drop drop_modifications = Some True" by (simp add: drop_modifications_def)
  show "fst (snd (request ev st fl cmds late)) = fl\<lparr>flow_killed := True\<rparr>"
    by (simp add: request_paused' [OF p] request_resume_drop [OF m dd])
  have "\<not> request_edited ev st fl (cmds @ late)"
    by (simp add: request_edited_def m dd)
  then show "sent st (fst (request ev st fl cmds late)) =
           [MRequest (flow_to_dict ev fl False), MInterceptRequest (flow_to_dict ev fl False)]"
    using p by (simp add: request_sent_eq)
qed

lemma drop_not_pending: "pending_flows st f = None \<Longrightarrow> process_backend_command st (Drop f) = st"
  by simp

lemma run_drop_not_pending:
  "pending_flows st f = None \<Longrightarrow>
   run_commands st (pre @ Drop f # post) = run_commands st (pre @ post)"
  by simp

lemma response_drop_ignored:
  assumes "pending_flows st (flow_ident fl) = None"
  shows "response ev st fl (pre @ Drop (flow_ident fl) # post) late = response ev st fl (pre @ post) late"
    and "response ev st fl cmds (pre @ Drop (flow_ident fl) # post) = response ev st fl cmds (pre @ post)"
proof -
  have b: "pending_flows (fst (response_begin ev st fl)) (flow_ident fl) = None"
    using assms by (cases "pauses st fl")
      (simp_all add: response_begin_paused response_begin_not_paused)
  show "response ev st fl (pre @ Drop (flow_ident fl) # post) late =
        response ev st fl (pre @ post) late"
  proof (cases "flow_response fl")
    case None
    then show ?thesis by (simp add: response_def)
  next
    case (Some r)
    show ?thesis
    proof (cases "pauses st fl")
      case True
      show ?thesis using b by (simp add: response_paused [OF True Some])
    next
      case False
      show ?thesis by (simp add: response_not_paused [OF False Some])
    qed
  qed
  show "response ev st fl cmds (pre @ Drop (flow_ident fl) # post) =
        response ev st fl cmds (pre @ post)"
  proof (cases "flow_response fl")
    case None
    then show ?thesis by (simp add: response_def)
  next
    case (Some r)
    show ?thesis
    proof (cases "pauses st fl")
      case True
      show ?thesis using b by (simp add: response_paused [OF True Some])
    next
      case False
      show ?thesis by (simp add: response_not_paused [OF False Some])
    qed
  qed
qed

text \<open>
  Claim C5, as the code has it. A \<^verbatim>\<open>drop\<close> command acts on the request phase only.
  When it names the flow whose request hook is waiting, it stores a drop for the flow, and
  the hook, when it runs again, kills the flow and returns, leaving the request as it was
  and sending nothing after the \<^verbatim>\<open>request\<close> and \<^verbatim>\<open>intercept_request\<close> messages:
  provided no \<^verbatim>\<open>forward_modified\<close> command for the same flow is handled after the drop
  and before the hook runs again, for such a command puts its Modification Set in the
  place of the stored drop. When the flow the command names is not in \<^verbatim>\<open>pending_flows\<close>,
  also when it is waiting in \<^verbatim>\<open>response_pending\<close>, the command changes nothing, and a
  response hook runs as if the command had not arrived.
\<close>

theorem drop_only_in_request_phase:
  "((should_intercept st (req_host (flow_request fl)) \<or> should_apply_rules st)
      \<and> cmds @ late = pre @ Drop (flow_ident fl) # post
      \<and> no_forward_modified (flow_ident fl) post \<longrightarrow>
        fst (snd (request ev st fl cmds late)) = fl\<lparr>flow_killed := True\<rparr>
        \<and> sent st (fst (request ev st fl cmds late)) =
            [MRequest (flow_to_dict ev fl False), MInterceptRequest (flow_to_dict ev fl False)])
   \<and> (pending_flows st f = None \<longrightarrow> process_backend_command st (Drop f) = st)
   \<and> (pending_flows st (flow_ident fl) = None \<longrightarrow>
        response ev st fl (pre @ Drop (flow_ident fl) # post) late =
          response ev st fl (pre @ post) late
        \<and> response ev st fl cmds (pre @ Drop (flow_ident fl) # post) =
          response ev st fl cmds (pre @ post))"
proof -
  have a: "(should_intercept st (req_host (flow_request fl)) \<or> should_apply_rules st)
      \<and> cmds @ late = pre @ Drop (flow_ident fl) # post
      \<and> no_forward_modified (flow_ident fl) post \<longrightarrow>
        fst (snd (request ev st fl cmds late)) = fl\<lparr>flow_killed := True\<rparr>
        \<and> sent st (fst (request ev st fl cmds late)) =
            [MRequest (flow_to_dict ev fl False), MInterceptRequest (flow_to_dict ev fl False)]"
    using request_drop [of st fl cmds late pre post ev] by (simp add: pauses_def)
  have b: "pending_flows st (flow_ident fl) = None \<longrightarrow>
        response ev st fl (pre @ Drop (flow_ident fl) # post) late =
          response ev st fl (pre @ post) late
        \<and> response ev st fl cmds (pre @ Drop (flow_ident fl) # post) =
          response ev st fl cmds (pre @ post)"
    using response_drop_ignored by blast
  from a b drop_not_pending show ?thesis by blast
qed

lemma ex_waiting_resp_not_pending: "pending_flows ex_waiting_resp ''f1'' = None"
  by (simp add: ex_waiting_resp_def response_begin_paused)
     (simp add: ex_intercept_all_def init_addon_def)

theorem drop_only_in_request_phase_witness:
  "fst (snd (request ex_env ex_intercept_all ex_flow [Forward ''f2'', Drop ''f1''] [Forward ''f1''])) =
     ex_flow\<lparr>flow_killed := True\<rparr>
   \<and> map msg_type
        (sent ex_intercept_all
           (fst (request ex_env ex_intercept_all ex_flow [Forward ''f2'', Drop ''f1'']
                   [Forward ''f1'']))) = [''request'', ''intercept_request'']
   \<and> response_pending ex_waiting_resp ''f1'' = Some 0
   \<and> process_backend_command ex_waiting_resp (Drop ''f1'') = ex_waiting_resp
   \<and> response ex_env ex_intercept_all ex_flow_resp [Drop ''f1''] [] =
       response ex_env ex_intercept_all ex_flow_resp [] []"
proof -
  have p0: "pending_flows ex_intercept_all ''f1'' = None"
    by (simp add: ex_intercept_all_def init_addon_def)
  have c: "[Forward ''f2'', Drop ''f1''] @ [Forward ''f1''] =
           [Forward ''f2''] @ Drop (flow_ident ex_flow) # [Forward ''f1'']" by simp
  have n: "no_forward_modified (flow_ident ex_flow) [Forward ''f1'']"
    by (simp add: no_forward_modified_def)
  note t1 = drop_only_in_request_phase
     [of ex_intercept_all ex_flow "[Forward ''f2'', Drop ''f1'']" "[Forward ''f1'']"
         "[Forward ''f2'']" "[Forward ''f1'']" ex_env "''f1''"]
  note t2 = drop_only_in_request_phase
     [of ex_waiting_resp ex_flow "[]" "[]" "[]" "[]" ex_env "''f1''"]
  note t3 = drop_only_in_request_phase
     [of ex_intercept_all ex_flow_resp "[]" "[]" "[]" "[]" ex_env "''f1''"]
  have a: "fst (snd (request ex_env ex_intercept_all ex_flow [Forward ''f2'', Drop ''f1'']
                       [Forward ''f1''])) = ex_flow\<lparr>flow_killed := True\<rparr>
     \<and> sent ex_intercept_all
          (fst (request ex_env ex_intercept_all ex_flow [Forward ''f2'', Drop ''f1'']
                  [Forward ''f1''])) =
         [MRequest (flow_to_dict ex_env ex_flow False),
          MInterceptRequest (flow_to_dict ex_env ex_flow False)]"
    using t1 ex_pauses c n by blast
  have b: "process_backend_command ex_waiting_resp (Drop ''f1'') = ex_waiting_resp"
    using t2 ex_waiting_resp_not_pending by blast
  have d: "response ex_env ex_intercept_all ex_flow_resp [Drop ''f1''] [] =
       response ex_env ex_intercept_all ex_flow_resp [] []"
    using t3 p0 by simp
  from a b d ex_waiting_resp_pending show ?thesis by simp
qed

theorem drop_replaced_by_forward_modified:
  "flow_killed
     (fst (snd (request ex_env ex_intercept_all ex_flow [Drop ''f1'']
                  [ForwardModified ''f1'' (Some ex_mods)]))) = False
   \<and> req_content
        (flow_request
           (fst (snd (request ex_env ex_intercept_all ex_flow [Drop ''f1'']
                        [ForwardModified ''f1'' (Some ex_mods)])))) = Some ''new''
   \<and> snd (snd (request ex_env ex_intercept_all ex_flow [Drop ''f1'']
                  [ForwardModified ''f1'' (Some ex_mods)])) = Some Released"
proof -
  let ?S = "request_resumed ex_env ex_intercept_all ex_flow
              ([Drop ''f1''] @ [ForwardModified ''f1'' (Some ex_mods)])"
  have n0: "next_event ex_intercept_all = 0" by (simp add: ex_intercept_all_def init_addon_def)
  have pf: "pending_flows (request_resumed ex_env ex_intercept_all ex_flow cs) ''f1'' = Some 0" for cs
    using request_resumed_facts(2) [of ex_intercept_all ex_flow ex_env cs]
    by (simp add: n0)
  have m: "flow_modifications ?S (flow_ident ex_flow) = Some ex_mods"
    using pf [of "[]"] by (simp add: request_resumed_def set_event_def mods_or_empty_def)
  have e: "events (request_resumed ex_env ex_intercept_all ex_flow [Drop ''f1''])
             (next_event ex_intercept_all)"
    using pf [of "[]"]
    by (simp add: request_resumed_def set_event_def n0)
  have k: "flow_killed ex_flow = False" "flow_request ex_flow = ex_request"
    by (simp_all add: ex_flow_def)
  have c: "req_content (fst (apply_request_mods ex_env ex_mods ex_request)) = Some ''new''"
    by (simp add: apply_request_mods_content ex_mods_def ex_set_text_request)
  have m': "flow_modifications
              (request_resumed ex_env ex_intercept_all ex_flow
                 [Drop ''f1'', ForwardModified ''f1'' (Some ex_mods)]) (flow_ident ex_flow) =
            Some ex_mods"
    using m by simp
  show ?thesis
    using e k c
    by (simp add: request_paused' request_resume_edit [OF m'] del: ex_flow_ident)
qed

subsection \<open>Replay without a URL\<close>

lemma replay_missing_url_eq:
  "missing_url data \<Longrightarrow>
   handle_replay_request ev st data cmds late =
     send_to_backend st
       (MReplayResponse (rp_replay_id data) (rp_variant_id data) None ''Missing URL'')"
  by (auto simp: missing_url_def handle_replay_request_def Let_def empty_request_data_def
           split: option.splits)

text \<open>
  Claim C4, as the code has it. A replay command whose request has no URL (none, or the
  empty string) ends at once: the state is the one before with a single message added,
  of type \<^verbatim>\<open>replay_response\<close>, carrying the replay id, the variant id and the error
  \<^verbatim>\<open>Missing URL\<close>. No call goes to the HTTP client, no \<^verbatim>\<open>replay_complete\<close> message is
  sent, and the result does not depend on any collaborator, so nothing can raise.
\<close>

theorem replay_missing_url:
  "missing_url data \<longrightarrow>
     handle_replay_request ev st data cmds late =
       send_to_backend st
         (MReplayResponse (rp_replay_id data) (rp_variant_id data) None ''Missing URL'')
     \<and> http_log (handle_replay_request ev st data cmds late) = http_log st
     \<and> sent st (handle_replay_request ev st data cmds late) =
         [MReplayResponse (rp_replay_id data) (rp_variant_id data) None ''Missing URL'']
     \<and> map msg_type (sent st (handle_replay_request ev st data cmds late)) = [''replay_response'']
     \<and> handle_replay_request ev st data cmds late =
         handle_replay_request ev' st data cmds' late'"
  by (simp add: replay_missing_url_eq send_to_backend_def)

lemma ex_replay_missing: "missing_url ex_replay_no_url"
  by (simp add: missing_url_def ex_replay_no_url_def)

theorem replay_missing_url_witness:
  "missing_url ex_replay_no_url
   \<and> http_log (handle_replay_request ex_env init_addon ex_replay_no_url [] []) = []
   \<and> sent init_addon (handle_replay_request ex_env init_addon ex_replay_no_url [] []) =
       [MReplayResponse ''r1'' ''v1'' None ''Missing URL'']"
proof -
  have h: "http_log init_addon = []" by (simp add: init_addon_def)
  have i: "rp_replay_id ex_replay_no_url = ''r1''" "rp_variant_id ex_replay_no_url = ''v1''"
    by (simp_all add: ex_replay_no_url_def)
  from replay_missing_url [of ex_replay_no_url ex_env init_addon "[]" "[]" ex_env "[]" "[]"]
       ex_replay_missing h i
  show ?thesis by metis
qed

theorem replay_missing_url_not_replay_complete:
  "map msg_type (outbox (handle_replay_request ex_env init_addon ex_replay_no_url [] [])) =
     [''replay_response'']"
  by (simp add: replay_missing_url_eq [OF ex_replay_missing] send_to_backend_def init_addon_def)

subsection \<open>Timeout\<close>

lemma cmd_keeps_no_flow_mods:
  "pending_flows st f = Some e \<Longrightarrow> flow_modifications st f = None \<Longrightarrow>
   \<not> events (process_backend_command st c) e \<Longrightarrow>
   flow_modifications (process_backend_command st c) f = None"
  by (cases c) (auto simp: set_event_def split: option.splits)

lemma cmd_keeps_no_response_mods:
  "response_pending st f = Some e \<Longrightarrow> response_modifications st f = None \<Longrightarrow>
   \<not> events (process_backend_command st c) e \<Longrightarrow>
   response_modifications (process_backend_command st c) f = None"
  by (cases c) (auto simp: set_event_def split: option.splits)

lemma run_keeps_no_flow_mods:
  "pending_flows st f = Some e \<Longrightarrow> flow_modifications st f = None \<Longrightarrow>
   \<not> events (run_commands st cmds) e \<Longrightarrow>
   flow_modifications (run_commands st cmds) f = None"
proof (induction cmds arbitrary: st)
  case Nil
  then show ?case by simp
next
  case (Cons c cs)
  have ne: "\<not> events (process_backend_command st c) e"
    using Cons.prems(3) run_events_mono [of "process_backend_command st c" e cs] by auto
  have "flow_modifications (process_backend_command st c) f = None"
    using cmd_keeps_no_flow_mods [OF Cons.prems(1,2) ne] .
  moreover have "pending_flows (process_backend_command st c) f = Some e"
    using Cons.prems(1) by simp
  moreover have "\<not> events (run_commands (process_backend_command st c) cs) e"
    using Cons.prems(3) by simp
  ultimately have "flow_modifications (run_commands (process_backend_command st c) cs) f = None"
    using Cons.IH by blast
  then show ?case by simp
qed

lemma run_keeps_no_response_mods:
  "response_pending st f = Some e \<Longrightarrow> response_modifications st f = None \<Longrightarrow>
   \<not> events (run_commands st cmds) e \<Longrightarrow>
   response_modifications (run_commands st cmds) f = None"
proof (induction cmds arbitrary: st)
  case Nil
  then show ?case by simp
next
  case (Cons c cs)
  have ne: "\<not> events (process_backend_command st c) e"
    using Cons.prems(3) run_events_mono [of "process_backend_command st c" e cs] by auto
  have "response_modifications (process_backend_command st c) f = None"
    using cmd_keeps_no_response_mods [OF Cons.prems(1,2) ne] .
  moreover have "response_pending (process_backend_command st c) f = Some e"
    using Cons.prems(1) by simp
  moreover have "\<not> events (run_commands (process_backend_command st c) cs) e"
    using Cons.prems(3) by simp
  ultimately have
    "response_modifications (run_commands (process_backend_command st c) cs) f = None"
    using Cons.IH by blast
  then show ?case by simp
qed

text \<open>Commands that carry no Modification Set for a flow leave what is stored for it,
  and are not affected by it.\<close>

lemma cmd_quiet_mods:
  "\<not> carries_modification f c \<Longrightarrow>
   flow_modifications (process_backend_command st c) f = flow_modifications st f
   \<and> response_modifications (process_backend_command st c) f = response_modifications st f"
  by (cases c) (auto simp: set_event_def split: option.splits)

lemma quiet_Nil [simp]: "quiet f []"
  by (simp add: quiet_def)

lemma quiet_Cons [simp]: "quiet f (c # cs) \<longleftrightarrow> \<not> carries_modification f c \<and> quiet f cs"
  by (simp add: quiet_def)

lemma run_quiet_mods:
  "quiet f cmds \<Longrightarrow>
   flow_modifications (run_commands st cmds) f = flow_modifications st f
   \<and> response_modifications (run_commands st cmds) f = response_modifications st f"
  by (induction cmds arbitrary: st) (simp_all add: cmd_quiet_mods)

lemma upd_True_commute: "g(a := True, b := True) = g(b := True, a := True)"
  by (rule ext) simp

lemma cmd_quiet_commute_flow:
  "\<not> carries_modification f c \<Longrightarrow>
   process_backend_command
     (S\<lparr>flow_modifications := (flow_modifications S)(f \<mapsto> m),
        events := (events S)(e := True)\<rparr>) c =
   (process_backend_command S c)
     \<lparr>flow_modifications := (flow_modifications (process_backend_command S c))(f \<mapsto> m),
      events := (events (process_backend_command S c))(e := True)\<rparr>"
  by (cases c) (auto simp: set_event_def fun_upd_twist upd_True_commute split: option.splits)

lemma cmd_quiet_commute_response:
  "\<not> carries_modification f c \<Longrightarrow>
   process_backend_command
     (S\<lparr>response_modifications := (response_modifications S)(f \<mapsto> m),
        events := (events S)(e := True)\<rparr>) c =
   (process_backend_command S c)
     \<lparr>response_modifications :=
        (response_modifications (process_backend_command S c))(f \<mapsto> m),
      events := (events (process_backend_command S c))(e := True)\<rparr>"
  by (cases c) (auto simp: set_event_def fun_upd_twist upd_True_commute split: option.splits)

lemma run_quiet_commute_flow:
  "quiet f cmds \<Longrightarrow>
   run_commands
     (S\<lparr>flow_modifications := (flow_modifications S)(f \<mapsto> m),
        events := (events S)(e := True)\<rparr>) cmds =
   (run_commands S cmds)
     \<lparr>flow_modifications := (flow_modifications (run_commands S cmds))(f \<mapsto> m),
      events := (events (run_commands S cmds))(e := True)\<rparr>"
  by (induction cmds arbitrary: S) (simp_all add: cmd_quiet_commute_flow)

lemma run_quiet_commute_response:
  "quiet f cmds \<Longrightarrow>
   run_commands
     (S\<lparr>response_modifications := (response_modifications S)(f \<mapsto> m),
        events := (events S)(e := True)\<rparr>) cmds =
   (run_commands S cmds)
     \<lparr>response_modifications := (response_modifications (run_commands S cmds))(f \<mapsto> m),
      events := (events (run_commands S cmds))(e := True)\<rparr>"
  by (induction cmds arbitrary: S) (simp_all add: cmd_quiet_commute_response)

lemma request_timeout:
  assumes nm: "flow_modifications st (flow_ident fl) = None"
    and to: "request ev st fl cmds late = (st', fl', Some TimedOut)"
    and q: "quiet (flow_ident fl) late"
  shows "fl' = fl"
    and "sent st st' = [MRequest (flow_to_dict ev fl False), MInterceptRequest (flow_to_dict ev fl False)]"
    and "flow_modifications st' (flow_ident fl) = None"
    and "request ev st fl (cmds @ [ForwardModified (flow_ident fl) (Some no_modifications)]) late =
           (st'\<lparr>events := (events st')(next_event st := True)\<rparr>, fl, Some Released)"
proof -
  let ?d = "flow_to_dict ev fl False"
  let ?e = "next_event st"
  let ?f = "flow_ident fl"
  have p: "pauses st fl"
  proof (rule ccontr)
    assume "\<not> pauses st fl"
    then show False using to by (simp add: request_not_paused)
  qed
  define S where "S = request_resumed ev st fl cmds"
  define T where "T = run_commands S late"
  have T_eq: "request_resumed ev st fl (cmds @ late) = T"
    by (simp add: S_def T_def request_resumed_def)
  have r: "request ev st fl cmds late =
           (fst (request_resume ev T fl ?d), snd (request_resume ev T fl ?d),
            Some (if events S ?e then Released else TimedOut))"
    by (simp only: request_paused' [OF p] T_eq S_def)
  then have w: "\<not> events S ?e" using to by (auto split: if_splits)
  have b: "pending_flows (fst (request_begin ev st fl)) ?f = Some ?e"
    "flow_modifications (fst (request_begin ev st fl)) ?f = None"
    using nm by (simp_all add: request_begin_paused [OF p])
  have mS: "flow_modifications S ?f = None"
    using run_keeps_no_flow_mods [OF b, of cmds] w by (simp add: S_def request_resumed_def)
  have mT: "flow_modifications T ?f = None"
    using run_quiet_mods [OF q, of S] mS by (simp add: T_def)
  have oT: "outbox T = outbox st @ [MRequest ?d, MInterceptRequest ?d]"
    using request_resumed_facts(1) [OF p, of ev "cmds @ late"] by (simp only: T_eq)
  have res: "request_resume ev T fl ?d =
             (T\<lparr>pending_flows := (pending_flows T)(?f := None)\<rparr>, fl)"
    using mT by (rule request_resume_none)
  from r res to have st': "st' = T\<lparr>pending_flows := (pending_flows T)(?f := None)\<rparr>"
    and fl': "fl' = fl" by simp_all
  show "fl' = fl" by (rule fl')
  show "sent st st' = [MRequest ?d, MInterceptRequest ?d]" using st' oT by simp
  show "flow_modifications st' ?f = None" using st' mT by simp
  let ?c = "ForwardModified ?f (Some no_modifications)"
  have pS: "pending_flows S ?f = Some ?e" using p by (simp add: S_def)
  have c1: "process_backend_command S ?c =
              S\<lparr>flow_modifications := (flow_modifications S)(?f \<mapsto> no_modifications),
                events := (events S)(?e := True)\<rparr>"
    using pS by (simp add: set_event_def mods_or_empty_def)
  define U where "U = T\<lparr>flow_modifications := (flow_modifications T)(?f \<mapsto> no_modifications),
                        events := (events T)(?e := True)\<rparr>"
  have U_eq: "request_resumed ev st fl ((cmds @ [?c]) @ late) = U"
  proof -
    have "request_resumed ev st fl ((cmds @ [?c]) @ late) =
            run_commands (process_backend_command S ?c) late"
      by (simp add: request_resumed_def S_def del: process_backend_command.simps)
    also have "\<dots> = U"
      by (simp only: c1 run_quiet_commute_flow [OF q] U_def T_def)
    finally show ?thesis .
  qed
  have e3: "events (request_resumed ev st fl (cmds @ [?c])) ?e"
  proof -
    have "request_resumed ev st fl (cmds @ [?c]) = process_backend_command S ?c"
      by (simp add: request_resumed_def S_def del: process_backend_command.simps)
    then show ?thesis by (simp only: c1) simp
  qed
  have m: "(flow_modifications T)(?f := None) = flow_modifications T"
    using mT by (simp add: fun_upd_idem)
  have res3: "request_resume ev U fl ?d =
              (T\<lparr>pending_flows := (pending_flows T)(?f := None),
                  events := (events T)(?e := True)\<rparr>, fl)"
    by (simp add: U_def request_resume_def Let_def no_modifications_def apply_request_mods_def m)
  have "request ev st fl (cmds @ [?c]) late =
          (fst (request_resume ev U fl ?d), snd (request_resume ev U fl ?d), Some Released)"
    using e3 by (simp only: request_paused' [OF p] U_eq) simp
  then show "request ev st fl (cmds @ [?c]) late =
           (st'\<lparr>events := (events st')(?e := True)\<rparr>, fl, Some Released)"
    by (simp add: res3 st')
qed

lemma response_finish_snapshot:
  "streaming_flows s = streaming_flows st - {flow_ident fl} \<Longrightarrow>
   response_finish ev s fl (response_snapshot ev st fl) False =
     send_to_backend s (MResponse (response_snapshot ev st fl))"
  by (simp add: response_finish_def response_snapshot_def Let_def flow_to_dict_def)

lemma response_timeout:
  assumes rs: "flow_response fl = Some r"
    and nm: "response_modifications st (flow_ident fl) = None"
    and to: "response ev st fl cmds late = Inr (st', fl', Some TimedOut)"
    and q: "quiet (flow_ident fl) late"
  shows "fl' = fl"
    and "sent st st' = [MInterceptResponse (response_snapshot ev st fl),
                        MResponse (response_snapshot ev st fl)]"
    and "response_modifications st' (flow_ident fl) = None"
    and "response ev st fl
           (cmds @ [ForwardResponseModified (flow_ident fl) (Some no_modifications)]) late =
           Inr (st'\<lparr>events := (events st')(next_event st := True)\<rparr>, fl, Some Released)"
proof -
  let ?d = "response_snapshot ev st fl"
  let ?e = "next_event st"
  let ?f = "flow_ident fl"
  have p: "pauses st fl"
  proof (rule ccontr)
    assume "\<not> pauses st fl"
    then show False using to rs by (simp add: response_not_paused)
  qed
  define S where "S = response_resumed ev st fl cmds"
  define T where "T = run_commands S late"
  have T_eq: "response_resumed ev st fl (cmds @ late) = T"
    by (simp add: S_def T_def response_resumed_def)
  define res where "res = response_resume ev T fl r"
  have rr: "response ev st fl cmds late =
           Inr (response_finish ev (fst res) (fst (snd res)) ?d (snd (snd res)),
                fst (snd res), Some (if events S ?e then Released else TimedOut))"
    by (simp only: response_paused' [OF p rs] T_eq S_def res_def)
  then have w: "\<not> events S ?e" using to by (auto split: if_splits)
  have b: "response_pending (fst (response_begin ev st fl)) ?f = Some ?e"
    "response_modifications (fst (response_begin ev st fl)) ?f = None"
    using nm by (simp_all add: response_begin_paused [OF p])
  have mS: "response_modifications S ?f = None"
    using run_keeps_no_response_mods [OF b, of cmds] w
    by (simp add: S_def response_resumed_def)
  have mT: "response_modifications T ?f = None"
    using run_quiet_mods [OF q, of S] mS by (simp add: T_def)
  have oT: "outbox T = outbox st @ [MInterceptResponse ?d]"
    using response_resumed_facts(1) [OF p, of ev "cmds @ late"] by (simp only: T_eq)
  have sT: "streaming_flows T = streaming_flows st - {?f}"
    using response_resumed_facts(3) [OF p, of ev "cmds @ late"] by (simp only: T_eq)
  define T' where "T' = T\<lparr>response_pending := (response_pending T)(?f := None)\<rparr>"
  have res_eq: "res = (T', fl, False)"
    using mT by (simp add: res_def response_resume_none T'_def)
  have sf: "streaming_flows T' = streaming_flows st - {?f}" using sT by (simp add: T'_def)
  have fin: "response_finish ev T' fl ?d False = send_to_backend T' (MResponse ?d)"
    using sf by (rule response_finish_snapshot)
  from rr res_eq to fin have st': "st' = send_to_backend T' (MResponse ?d)"
    and fl': "fl' = fl" by simp_all
  show "fl' = fl" by (rule fl')
  show "sent st st' = [MInterceptResponse ?d, MResponse ?d]"
    using st' oT by (simp add: send_to_backend_def T'_def)
  show "response_modifications st' ?f = None"
    using st' mT by (simp add: send_to_backend_def T'_def)
  let ?c = "ForwardResponseModified ?f (Some no_modifications)"
  have pS: "response_pending S ?f = Some ?e" using p by (simp add: S_def)
  have c1: "process_backend_command S ?c =
              S\<lparr>response_modifications := (response_modifications S)(?f \<mapsto> no_modifications),
                events := (events S)(?e := True)\<rparr>"
    using pS by (simp add: set_event_def mods_or_empty_def)
  define U where "U = T\<lparr>response_modifications :=
                          (response_modifications T)(?f \<mapsto> no_modifications),
                        events := (events T)(?e := True)\<rparr>"
  have U_eq: "response_resumed ev st fl ((cmds @ [?c]) @ late) = U"
  proof -
    have "response_resumed ev st fl ((cmds @ [?c]) @ late) =
            run_commands (process_backend_command S ?c) late"
      by (simp add: response_resumed_def S_def del: process_backend_command.simps)
    also have "\<dots> = U"
      by (simp only: c1 run_quiet_commute_response [OF q] U_def T_def)
    finally show ?thesis .
  qed
  have e3: "events (response_resumed ev st fl (cmds @ [?c])) ?e"
  proof -
    have "response_resumed ev st fl (cmds @ [?c]) = process_backend_command S ?c"
      by (simp add: response_resumed_def S_def del: process_backend_command.simps)
    then show ?thesis by (simp only: c1) simp
  qed
  have m: "(response_modifications T)(?f := None) = response_modifications T"
    using mT by (simp add: fun_upd_idem)
  have fl_eq: "fl\<lparr>flow_response := Some r\<rparr> = fl" using rs by simp
  define U' where "U' = T'\<lparr>events := (events T)(?e := True)\<rparr>"
  have res3: "response_resume ev U fl r = (U', fl, False)"
    by (simp add: U_def response_resume_def Let_def no_modifications_def apply_response_mods_def
          m fl_eq U'_def T'_def)
  have sf3: "streaming_flows U' = streaming_flows st - {?f}"
    using sf by (simp add: U'_def)
  have fin3: "response_finish ev U' fl ?d False = send_to_backend U' (MResponse ?d)"
    using sf3 by (rule response_finish_snapshot)
  have r3: "response ev st fl (cmds @ [?c]) late =
              Inr (response_finish ev U' fl ?d False, fl, Some Released)"
    using e3 by (simp only: response_paused' [OF p rs] U_eq res3) simp
  have eq: "send_to_backend U' (MResponse ?d) = st'\<lparr>events := (events st')(?e := True)\<rparr>"
    by (simp add: st' U'_def T'_def send_to_backend_def)
  show "response ev st fl (cmds @ [?c]) late =
           Inr (st'\<lparr>events := (events st')(?e := True)\<rparr>, fl, Some Released)"
    by (simp only: r3 fin3 eq)
qed

text \<open>A hook does not test how its wait ended: what it does when it runs again depends
  only on the commands handled since it began to wait.\<close>

lemma request_ignores_wait_result:
  "fst (request ev st fl cmds late) = fst (request ev st fl (cmds @ late) [])"
  "fst (snd (request ev st fl cmds late)) = fst (snd (request ev st fl (cmds @ late) []))"
proof -
  show "fst (request ev st fl cmds late) = fst (request ev st fl (cmds @ late) [])"
  proof (cases "pauses st fl")
    case True
    show ?thesis by (simp add: request_paused' [OF True])
  next
    case False
    show ?thesis by (simp add: request_not_paused [OF False])
  qed
  show "fst (snd (request ev st fl cmds late)) = fst (snd (request ev st fl (cmds @ late) []))"
  proof (cases "pauses st fl")
    case True
    show ?thesis by (simp add: request_paused' [OF True])
  next
    case False
    show ?thesis by (simp add: request_not_paused [OF False])
  qed
qed

lemma response_ignores_wait_result:
  "map_sum id (\<lambda>x. (fst x, fst (snd x))) (response ev st fl cmds late) =
   map_sum id (\<lambda>x. (fst x, fst (snd x))) (response ev st fl (cmds @ late) [])"
proof (cases "flow_response fl")
  case None
  then show ?thesis by (simp add: response_def)
next
  case (Some r)
  show ?thesis
  proof (cases "pauses st fl")
    case True
    show ?thesis by (simp add: response_paused' [OF True Some])
  next
    case False
    show ?thesis by (simp add: response_not_paused [OF False Some])
  qed
qed

subsection \<open>Stored modifications belong to released waits\<close>

lemma registry_ok_init: "registry_ok init_addon"
  by (simp add: registry_ok_def init_addon_def)

lemma registry_ok_no_flow_mods:
  "registry_ok st \<Longrightarrow> pending_flows st f = None \<Longrightarrow> flow_modifications st f = None"
  by (auto simp: registry_ok_def)

lemma registry_ok_no_response_mods:
  "registry_ok st \<Longrightarrow> response_pending st f = None \<Longrightarrow> response_modifications st f = None"
  by (auto simp: registry_ok_def)

lemma registry_ok_set_event: "registry_ok st \<Longrightarrow> registry_ok (set_event st e)"
  by (auto simp: registry_ok_def set_event_def)

lemma registry_ok_command: "registry_ok st \<Longrightarrow> registry_ok (process_backend_command st c)"
proof (cases c)
  case (ForwardModified f m)
  assume ok: "registry_ok st"
  show ?thesis
  proof (cases "pending_flows st f")
    case None
    note pn = None
    show ?thesis
    proof (cases "response_pending st f")
      case None
      then show ?thesis using ok pn ForwardModified by simp
    next
      case (Some e)
      then show ?thesis using ok pn ForwardModified
        by (auto simp: registry_ok_def set_event_def)
    qed
  next
    case (Some e)
    then show ?thesis using ok ForwardModified
      by (auto simp: registry_ok_def set_event_def)
  qed
next
  case (Drop f)
  assume ok: "registry_ok st"
  show ?thesis
  proof (cases "pending_flows st f")
    case None
    then show ?thesis using ok Drop by simp
  next
    case (Some e)
    then show ?thesis using ok Drop
      by (auto simp: registry_ok_def set_event_def)
  qed
next
  case (ForwardResponseModified f m)
  assume ok: "registry_ok st"
  show ?thesis
  proof (cases "response_pending st f")
    case None
    then show ?thesis using ok ForwardResponseModified by simp
  next
    case (Some e)
    then show ?thesis using ok ForwardResponseModified
      by (auto simp: registry_ok_def set_event_def)
  qed
next
  case (SetInterceptMode m)
  assume "registry_ok st"
  then show ?thesis using SetInterceptMode by (simp add: registry_ok_def)
next
  case (SetRulesEnabled b)
  assume "registry_ok st"
  then show ?thesis using SetRulesEnabled by (simp add: registry_ok_def)
next
  case (Forward f)
  assume "registry_ok st"
  then show ?thesis using Forward by (simp add: registry_ok_set_event split: option.split)
next
  case (ForwardResponse f)
  assume "registry_ok st"
  then show ?thesis using ForwardResponse
    by (simp add: registry_ok_set_event split: option.split)
next
  case (ReplayRequest d)
  assume "registry_ok st"
  then show ?thesis using ReplayRequest by (simp add: registry_ok_def)
next
  case (UnknownCommand u)
  assume "registry_ok st"
  then show ?thesis using UnknownCommand by simp
qed

lemma registry_ok_run: "registry_ok st \<Longrightarrow> registry_ok (run_commands st cmds)"
  by (induction cmds arbitrary: st) (simp_all add: registry_ok_command)

lemma registry_ok_send [simp]: "registry_ok (send_to_backend st m) = registry_ok st"
  by (simp add: registry_ok_def send_to_backend_def)

lemma registry_ok_request_begin:
  assumes "registry_ok st" and "pending_flows st (flow_ident fl) = None"
  shows "registry_ok (fst (request_begin ev st fl))"
proof (cases "pauses st fl")
  case True
  have m: "flow_modifications st (flow_ident fl) = None"
    using assms by (rule registry_ok_no_flow_mods)
  show ?thesis
    unfolding request_begin_paused [OF True] using assms m
    by (simp add: registry_ok_def less_Suc_eq) (metis less_irrefl_nat option.distinct(1))
next
  case False
  show ?thesis
    unfolding request_begin_not_paused [OF False] using assms
    by (simp add: registry_ok_def)
qed

lemma registry_ok_request_resume:
  assumes "registry_ok st"
  shows "registry_ok (fst (request_resume ev st fl d))"
proof -
  have "registry_ok (st\<lparr>pending_flows := (pending_flows st)(flow_ident fl := None),
                         flow_modifications := (flow_modifications st)(flow_ident fl := None)\<rparr>)"
    using assms by (auto simp: registry_ok_def)
  moreover have "flow_modifications st (flow_ident fl) = None \<Longrightarrow>
        st\<lparr>pending_flows := (pending_flows st)(flow_ident fl := None),
           flow_modifications := (flow_modifications st)(flow_ident fl := None)\<rparr> =
        st\<lparr>pending_flows := (pending_flows st)(flow_ident fl := None)\<rparr>"
    by (simp add: fun_upd_idem)
  ultimately show ?thesis
    by (auto simp: request_resume_def Let_def split_def split: option.split)
qed

lemma registry_ok_request:
  assumes "registry_ok st" and "pending_flows st (flow_ident fl) = None"
  shows "registry_ok (fst (request ev st fl cmds late))"
proof -
  have b: "registry_ok (fst (request_begin ev st fl))"
    using assms by (rule registry_ok_request_begin)
  show ?thesis
    using b by (cases "request_begin ev st fl")
      (auto simp: request_def split_def Let_def registry_ok_run registry_ok_request_resume
            split: option.split)
qed

lemma registry_ok_response_begin:
  assumes "registry_ok st" and "response_pending st (flow_ident fl) = None"
  shows "registry_ok (fst (response_begin ev st fl))"
proof (cases "pauses st fl")
  case True
  have m: "response_modifications st (flow_ident fl) = None"
    using assms by (rule registry_ok_no_response_mods)
  show ?thesis
    unfolding response_begin_paused [OF True] using assms m
    by (simp add: registry_ok_def less_Suc_eq) (metis less_irrefl_nat option.distinct(1))
next
  case False
  show ?thesis
    unfolding response_begin_not_paused [OF False] using assms
    by (simp add: registry_ok_def)
qed

lemma registry_ok_response_resume:
  assumes "registry_ok st"
  shows "registry_ok (fst (response_resume ev st fl r))"
proof -
  have "registry_ok (st\<lparr>response_pending := (response_pending st)(flow_ident fl := None),
                         response_modifications :=
                           (response_modifications st)(flow_ident fl := None)\<rparr>)"
    using assms by (auto simp: registry_ok_def)
  moreover have "response_modifications st (flow_ident fl) = None \<Longrightarrow>
        st\<lparr>response_pending := (response_pending st)(flow_ident fl := None),
           response_modifications := (response_modifications st)(flow_ident fl := None)\<rparr> =
        st\<lparr>response_pending := (response_pending st)(flow_ident fl := None)\<rparr>"
    by (simp add: fun_upd_idem)
  ultimately show ?thesis
    by (auto simp: response_resume_def Let_def split_def split: option.split)
qed

lemma registry_ok_response_finish [simp]:
  "registry_ok (response_finish ev st fl d b) = registry_ok st"
  by (simp add: response_finish_def Let_def)

lemma registry_ok_response:
  assumes "registry_ok st" and "response_pending st (flow_ident fl) = None"
    and "response ev st fl cmds late = Inr (st', fl', w)"
  shows "registry_ok st'"
proof -
  have b: "registry_ok (fst (response_begin ev st fl))"
    using assms(1,2) by (rule registry_ok_response_begin)
  show ?thesis
    using b assms(3) by (cases "response_begin ev st fl")
      (auto simp: response_def split_def Let_def registry_ok_run registry_ok_response_resume
            split: option.splits)
qed

lemma reachable_registry_ok: "reachable st \<Longrightarrow> registry_ok st"
proof (induction rule: reachable.induct)
  case start
  show ?case by (rule registry_ok_init)
next
  case (command st c)
  then show ?case by (simp add: registry_ok_command)
next
  case (request_begins st fl ev)
  then show ?case by (simp add: registry_ok_request_begin)
next
  case (request_resumes st ev fl d)
  then show ?case by (simp add: registry_ok_request_resume)
next
  case (response_begins st fl ev)
  then show ?case by (simp add: registry_ok_response_begin)
next
  case (response_resumes st ev fl r)
  then show ?case by (simp add: registry_ok_response_resume)
next
  case (response_finishes st ev fl d b)
  then show ?case by simp
qed

text \<open>
  Claim C1, as the code has it. A hook does not test how its wait ended: when it runs again it applies the
  Modification Set stored for its flow at that moment, so the hook's state and flow are
  the ones of a hook whose wait handled all the commands (\<^verbatim>\<open>cmds\<close> and \<^verbatim>\<open>late\<close>
  together). A wait that ends by timeout leaves the transaction unmodified when no
  command carrying a Modification Set or a drop for that transaction is handled between
  the end of the wait and the hook running again (\<^const>\<open>quiet\<close>). Then, in a state in
  which every stored Modification Set belongs to a released wait (\<^const>\<open>registry_ok\<close>,
  which holds in every \<^const>\<open>reachable\<close> state) and for a flow not yet registered, no
  Modification Set is stored for the flow, the flow leaves the hook as it entered it
  (not killed, request and response untouched), the only messages are the ones sent
  before the wait and, for a response, the \<^verbatim>\<open>response\<close> message with the unmodified
  snapshot, and the outcome is the one of a release with an empty Modification Set
  handled last during the wait; only the event's flag differs.
\<close>

theorem timeout_forwards_unmodified:
  "(registry_ok st \<and> pending_flows st (flow_ident fl) = None
      \<and> request ev st fl cmds late = (st', fl', Some TimedOut)
      \<and> quiet (flow_ident fl) late \<longrightarrow>
        fl' = fl
        \<and> sent st st' = [MRequest (flow_to_dict ev fl False),
                          MInterceptRequest (flow_to_dict ev fl False)]
        \<and> flow_modifications st' (flow_ident fl) = None
        \<and> request ev st fl
              (cmds @ [ForwardModified (flow_ident fl) (Some no_modifications)]) late =
            (st'\<lparr>events := (events st')(next_event st := True)\<rparr>, fl, Some Released))
   \<and> (registry_ok st \<and> response_pending st (flow_ident fl) = None
      \<and> flow_response fl = Some r
      \<and> response ev st fl cmds late = Inr (st', fl', Some TimedOut)
      \<and> quiet (flow_ident fl) late \<longrightarrow>
        fl' = fl
        \<and> sent st st' = [MInterceptResponse (response_snapshot ev st fl),
                          MResponse (response_snapshot ev st fl)]
        \<and> response_modifications st' (flow_ident fl) = None
        \<and> response ev st fl
              (cmds @ [ForwardResponseModified (flow_ident fl) (Some no_modifications)]) late =
            Inr (st'\<lparr>events := (events st')(next_event st := True)\<rparr>, fl, Some Released))
   \<and> fst (request ev st fl cmds late) = fst (request ev st fl (cmds @ late) [])
   \<and> fst (snd (request ev st fl cmds late)) = fst (snd (request ev st fl (cmds @ late) []))
   \<and> map_sum id (\<lambda>x. (fst x, fst (snd x))) (response ev st fl cmds late) =
       map_sum id (\<lambda>x. (fst x, fst (snd x))) (response ev st fl (cmds @ late) [])"
proof -
  have q: "registry_ok st \<and> pending_flows st (flow_ident fl) = None
      \<and> request ev st fl cmds late = (st', fl', Some TimedOut)
      \<and> quiet (flow_ident fl) late \<longrightarrow>
        fl' = fl
        \<and> sent st st' = [MRequest (flow_to_dict ev fl False),
                          MInterceptRequest (flow_to_dict ev fl False)]
        \<and> flow_modifications st' (flow_ident fl) = None
        \<and> request ev st fl
              (cmds @ [ForwardModified (flow_ident fl) (Some no_modifications)]) late =
            (st'\<lparr>events := (events st')(next_event st := True)\<rparr>, fl, Some Released)"
  proof (rule impI)
    assume a: "registry_ok st \<and> pending_flows st (flow_ident fl) = None
      \<and> request ev st fl cmds late = (st', fl', Some TimedOut)
      \<and> quiet (flow_ident fl) late"
    then have nm: "flow_modifications st (flow_ident fl) = None"
      using registry_ok_no_flow_mods by blast
    from a have to: "request ev st fl cmds late = (st', fl', Some TimedOut)"
      and qt: "quiet (flow_ident fl) late" by blast+
    from request_timeout [OF nm to qt]
    show "fl' = fl
        \<and> sent st st' = [MRequest (flow_to_dict ev fl False),
                          MInterceptRequest (flow_to_dict ev fl False)]
        \<and> flow_modifications st' (flow_ident fl) = None
        \<and> request ev st fl
              (cmds @ [ForwardModified (flow_ident fl) (Some no_modifications)]) late =
            (st'\<lparr>events := (events st')(next_event st := True)\<rparr>, fl, Some Released)"
      by blast
  qed
  have p: "registry_ok st \<and> response_pending st (flow_ident fl) = None
      \<and> flow_response fl = Some r
      \<and> response ev st fl cmds late = Inr (st', fl', Some TimedOut)
      \<and> quiet (flow_ident fl) late \<longrightarrow>
        fl' = fl
        \<and> sent st st' = [MInterceptResponse (response_snapshot ev st fl),
                          MResponse (response_snapshot ev st fl)]
        \<and> response_modifications st' (flow_ident fl) = None
        \<and> response ev st fl
              (cmds @ [ForwardResponseModified (flow_ident fl) (Some no_modifications)]) late =
            Inr (st'\<lparr>events := (events st')(next_event st := True)\<rparr>, fl, Some Released)"
  proof (rule impI)
    assume a: "registry_ok st \<and> response_pending st (flow_ident fl) = None
      \<and> flow_response fl = Some r
      \<and> response ev st fl cmds late = Inr (st', fl', Some TimedOut)
      \<and> quiet (flow_ident fl) late"
    then have nm: "response_modifications st (flow_ident fl) = None"
      using registry_ok_no_response_mods by blast
    from a have rs: "flow_response fl = Some r"
      and to: "response ev st fl cmds late = Inr (st', fl', Some TimedOut)"
      and qt: "quiet (flow_ident fl) late" by blast+
    from response_timeout [OF rs nm to qt]
    show "fl' = fl
        \<and> sent st st' = [MInterceptResponse (response_snapshot ev st fl),
                          MResponse (response_snapshot ev st fl)]
        \<and> response_modifications st' (flow_ident fl) = None
        \<and> response ev st fl
              (cmds @ [ForwardResponseModified (flow_ident fl) (Some no_modifications)]) late =
            Inr (st'\<lparr>events := (events st')(next_event st := True)\<rparr>, fl, Some Released)"
      by blast
  qed
  note g = request_ignores_wait_result [of ev st fl cmds late]
    response_ignores_wait_result [of ev st fl cmds late]
  from q p g show ?thesis by blast
qed

lemma response_is_Inr:
  "flow_response fl = Some r \<Longrightarrow> \<exists>st' fl' w. response ev st fl cmds late = Inr (st', fl', w)"
  by (cases "response_begin ev st fl")
     (auto simp: response_def split_def Let_def split: option.split)

lemma ex_request_times_out:
  "snd (snd (request ex_env ex_intercept_all ex_flow ex_cmds [Forward ''f1''])) = Some TimedOut"
proof -
  have p: "pauses ex_intercept_all ex_flow" by (simp add: pauses_def ex_pauses)
  show ?thesis
    by (simp add: request_paused [OF p] request_begin_paused [OF p] ex_cmds_def)
       (simp add: ex_intercept_all_def init_addon_def ex_flow_def)
qed

lemma ex_response_times_out:
  "response ex_env ex_intercept_all ex_flow_resp ex_cmds [Forward ''f1''] = Inr (st', fl', w) \<Longrightarrow>
   w = Some TimedOut"
proof -
  have p: "pauses ex_intercept_all ex_flow_resp" by (simp add: pauses_def ex_pauses)
  have r: "flow_response ex_flow_resp = Some ex_response" by (simp add: ex_flow_resp_def)
  have a: "\<not> events (run_commands (fst (response_begin ex_env ex_intercept_all ex_flow_resp))
                       ex_cmds) (next_event ex_intercept_all)"
    by (simp add: response_begin_paused [OF p] ex_cmds_def)
       (simp add: ex_intercept_all_def init_addon_def ex_flow_def ex_flow_resp_def)
  assume "response ex_env ex_intercept_all ex_flow_resp ex_cmds [Forward ''f1''] = Inr (st', fl', w)"
  then show ?thesis using a
    by (simp only: response_paused [OF p r]) simp
qed

theorem timeout_forwards_unmodified_witness:
  "registry_ok ex_intercept_all
   \<and> pending_flows ex_intercept_all (flow_ident ex_flow) = None
   \<and> quiet (flow_ident ex_flow) [Forward ''f1'']
   \<and> snd (request ex_env ex_intercept_all ex_flow ex_cmds [Forward ''f1'']) =
       (ex_flow, Some TimedOut)
   \<and> response_pending ex_intercept_all (flow_ident ex_flow_resp) = None
   \<and> flow_response ex_flow_resp = Some ex_response
   \<and> quiet (flow_ident ex_flow_resp) [Forward ''f1'']
   \<and> map_sum id snd (response ex_env ex_intercept_all ex_flow_resp ex_cmds [Forward ''f1'']) =
       Inr (ex_flow_resp, Some TimedOut)"
proof -
  have ok: "registry_ok ex_intercept_all"
    by (simp add: registry_ok_def ex_intercept_all_def init_addon_def)
  have pn: "pending_flows ex_intercept_all (flow_ident ex_flow) = None"
    "response_pending ex_intercept_all (flow_ident ex_flow_resp) = None"
    by (simp_all add: ex_intercept_all_def init_addon_def)
  have qt: "quiet (flow_ident ex_flow) [Forward ''f1'']"
    "quiet (flow_ident ex_flow_resp) [Forward ''f1'']"
    by simp_all
  have r: "flow_response ex_flow_resp = Some ex_response" by (simp add: ex_flow_resp_def)
  obtain sa fa where
    a: "request ex_env ex_intercept_all ex_flow ex_cmds [Forward ''f1''] = (sa, fa, Some TimedOut)"
    using ex_request_times_out by (metis prod.collapse)
  obtain sb fb w where
    b0: "response ex_env ex_intercept_all ex_flow_resp ex_cmds [Forward ''f1''] = Inr (sb, fb, w)"
    using response_is_Inr [OF r] by blast
  then have
    b: "response ex_env ex_intercept_all ex_flow_resp ex_cmds [Forward ''f1''] =
          Inr (sb, fb, Some TimedOut)"
    using ex_response_times_out by blast
  have "fa = ex_flow"
    using timeout_forwards_unmodified
            [where st = ex_intercept_all and fl = ex_flow and ev = ex_env and cmds = ex_cmds
               and late = "[Forward ''f1'']" and st' = sa and fl' = fa and r = ex_response]
          ok pn a qt by blast
  moreover have "fb = ex_flow_resp"
    using timeout_forwards_unmodified
            [where st = ex_intercept_all and fl = ex_flow_resp and ev = ex_env and cmds = ex_cmds
               and late = "[Forward ''f1'']" and st' = sb and fl' = fb and r = ex_response]
          ok pn r b qt by blast
  ultimately show ?thesis using ok pn a b r qt by simp
qed

theorem timeout_applies_late_modification:
  "snd (snd (request ex_env ex_intercept_all ex_flow []
               [ForwardModified ''f1'' (Some ex_mods)])) = Some TimedOut
   \<and> req_content (flow_request ex_flow) = Some ''ping''
   \<and> req_content
        (flow_request
           (fst (snd (request ex_env ex_intercept_all ex_flow []
                        [ForwardModified ''f1'' (Some ex_mods)])))) = Some ''new''
   \<and> map msg_type
        (sent ex_intercept_all
           (fst (request ex_env ex_intercept_all ex_flow []
                   [ForwardModified ''f1'' (Some ex_mods)]))) =
       [''request'', ''intercept_request'', ''request_modified'']"
proof -
  let ?late = "[ForwardModified ''f1'' (Some ex_mods)]"
  have n0: "next_event ex_intercept_all = 0" by (simp add: ex_intercept_all_def init_addon_def)
  have pf: "pending_flows (request_resumed ex_env ex_intercept_all ex_flow cs) ''f1'' = Some 0"
    for cs
    using request_resumed_facts(2) [of ex_intercept_all ex_flow ex_env cs]
    by (simp add: n0)
  have m: "flow_modifications (request_resumed ex_env ex_intercept_all ex_flow ?late)
             (flow_ident ex_flow) = Some ex_mods"
    using pf [of "[]"] by (simp add: request_resumed_def set_event_def mods_or_empty_def)
  have e: "\<not> events (request_resumed ex_env ex_intercept_all ex_flow [])
                 (next_event ex_intercept_all)"
    by (simp add: request_resumed_def request_begin_paused n0)
  have k: "flow_request ex_flow = ex_request" "req_content ex_request = Some ''ping''"
    by (simp_all add: ex_flow_def ex_request_def)
  have c: "req_content (fst (apply_request_mods ex_env ex_mods ex_request)) = Some ''new''"
    by (simp add: apply_request_mods_content ex_mods_def ex_set_text_request)
  have w: "snd (snd (request ex_env ex_intercept_all ex_flow [] ?late)) = Some TimedOut"
    using e by (simp add: request_paused')
  have f: "req_content (flow_request (fst (snd (request ex_env ex_intercept_all ex_flow [] ?late))))
             = Some ''new''"
    using k c by (simp add: request_paused' request_resume_edit [OF m] del: ex_flow_ident)
  have ed: "request_edited ex_env ex_intercept_all ex_flow ([] @ ?late)"
    using m by (simp add: request_edited_def del: ex_flow_ident)
  have s: "map msg_type (sent ex_intercept_all
              (fst (request ex_env ex_intercept_all ex_flow [] ?late))) =
           [''request'', ''intercept_request'', ''request_modified'']"
    using ed by (simp only: request_sent_eq) simp
  from w k f s show ?thesis by simp
qed

end
